theory Spec2Isabelle
  imports Main "HOL-Library.AList" "HOL-Library.Sublist"
begin

section \<open>Data model\<close>

text \<open>
  A configured station (\<open>config.stations[i]\<close>) carries its code \<open>codEstacao\<close>.
  A reading (a DCP object of the remote payload) is a JavaScript object. The model keeps
  the two properties the program reads by name, \<open>codestacao\<close> and \<open>dataHora\<close>, and
  \<open>props\<close>: all own keys of the object in \<open>Object.keys\<close> order, each with the text that
  string conversion gives its value (\<open>None\<close> for \<open>null\<close>). The keys \<open>codestacao\<close> and
  \<open>dataHora\<close> are ordinary entries of \<open>props\<close>; whether they are printed is decided by
  the \<open>exclude\<close> list of the configuration only.
\<close>

record station =
  codEstacao :: string

record dcp =
  codestacao :: string
  dataHora :: string
  props :: "(string \<times> string option) list"

record config =
  dataDir :: string
  url :: string
  stations :: "station list"
  exclude :: "string list"

datatype error =
    ConfigFileError string
  | DisabledDCP string
  | TransportError string
  | FsError string
  | TypeError string
  | ReferenceError string

text \<open>
  An operation returns normally (\<open>Ok\<close>), throws an exception that a \<open>try\<close> can catch
  (\<open>Threw\<close>), or throws inside a callback of \<open>fs.readFile\<close>, outside every promise, which
  no handler of the program catches and which ends the process (\<open>Crashed\<close>).
\<close>

datatype 'a outcome = Ok 'a | Threw error | Crashed error

text \<open>
  What the program takes from its libraries and its surroundings:
  \<^item> \<open>parseDate s\<close> is the time value in milliseconds of \<open>new Date(s)\<close>, \<open>None\<close> for an
    invalid date;
  \<^item> \<open>formatLine s\<close> is \<open>moment(s).format('MM/DD/YYYY HH:mm:ss')\<close> and \<open>formatName s\<close> is
    \<open>moment(s).format('YYYYMMDD_HHmmss')\<close>;
  \<^item> \<open>remote n\<close> is the outcome of the \<open>n\<close>-th HTTP request of the process: an error
    (timeout, status, malformed payload) or the array \<open>response.data['cemaden']\<close>;
  \<^item> \<open>failMkdir dir\<close> and \<open>failWrite dir name\<close> say where \<open>fs.mkdirSync\<close> and a write
    to a file fail (permissions, full disk).
\<close>

record env =
  parseDate :: "string \<Rightarrow> int option"
  formatLine :: "string \<Rightarrow> string"
  formatName :: "string \<Rightarrow> string"
  remote :: "nat \<Rightarrow> error + dcp list"
  failMkdir :: "string \<Rightarrow> bool"
  failWrite :: "string \<Rightarrow> string \<Rightarrow> bool"

text \<open>
  The state the program changes: the directories below and including \<open>dataDir\<close>, each with
  its files (name and content, in creation order), the lines printed on the console, and
  the number of HTTP requests sent so far.
\<close>

record world =
  disk :: "string \<rightharpoonup> (string \<times> string) list"
  console :: "string list"
  requests :: nat

type_synonym fd = "string \<times> string"

section \<open>Formatting: \<open>buildKeys\<close>, \<open>buildLine\<close>, \<open>buildHeader\<close>, \<open>buildFileName\<close>\<close>

definition CRLF :: string where
  "CRLF = [CHR 0x0D, CHR 0x0A]"

definition buildKeys :: "dcp \<Rightarrow> string list \<Rightarrow> string list" where
  "buildKeys d excludeOptions = filter (\<lambda>element. element \<notin> set excludeOptions) (map fst (props d))"

text \<open>
  The loops of \<open>buildLine\<close> and \<open>buildHeader\<close>: every cell is followed by \<open>;\<close>, the last
  one by \<open>\r\n\<close>; with no cell nothing is added.
\<close>

fun joinCells :: "string list \<Rightarrow> string" where
  "joinCells [] = []"
| "joinCells [c] = c @ CRLF"
| "joinCells (c # c' # cs) = c @ '';'' @ joinCells (c' # cs)"

text \<open>\<open>dcp[element] == null ? "" : dcp[element]\<close>\<close>

definition cell :: "dcp \<Rightarrow> string \<Rightarrow> string" where
  "cell d element = (case map_of (props d) element of Some (Some v) \<Rightarrow> v | _ \<Rightarrow> [])"

definition buildLine :: "env \<Rightarrow> dcp \<Rightarrow> string list \<Rightarrow> string" where
  "buildLine e d arrayKeys =
     formatLine e (dataHora d) @ '';'' @ joinCells (map (cell d) (rev arrayKeys))"

definition buildHeader :: "station \<Rightarrow> string list \<Rightarrow> string" where
  "buildHeader st arrayKeys = ''TIMESTAMP;'' @ joinCells (rev arrayKeys)"

definition buildFileName :: "env \<Rightarrow> dcp \<Rightarrow> string" where
  "buildFileName e d = codestacao d @ ''_'' @ formatName e (dataHora d)"

section \<open>The deduplication filter\<close>

text \<open>
  \<open>isSameOrBefore\<close> of moment at millisecond resolution: false as soon as one of the two
  dates is invalid.
\<close>

definition isSameOrBefore :: "int option \<Rightarrow> int option \<Rightarrow> bool" where
  "isSameOrBefore a b =
     (case a of None \<Rightarrow> False
      | Some x \<Rightarrow> (case b of None \<Rightarrow> False | Some y \<Rightarrow> x = y \<or> x < y))"

definition compareDates :: "env \<Rightarrow> string \<Rightarrow> string \<Rightarrow> bool" where
  "compareDates e stationDate lastFileDate =
     (let timeStation = parseDate e stationDate;
          timeLastFile = parseDate e lastFileDate
      in if isSameOrBefore timeStation timeLastFile then False else True)"

text \<open>The loop of \<open>getData\<close> that pushes onto \<open>dcpsToSave\<close>.\<close>

fun pushNew :: "env \<Rightarrow> string \<Rightarrow> dcp list \<Rightarrow> dcp list \<Rightarrow> dcp list" where
  "pushNew e lastDate [] dcpsToSave = dcpsToSave"
| "pushNew e lastDate (d # ds) dcpsToSave =
     pushNew e lastDate ds
       (if compareDates e (dataHora d) lastDate then dcpsToSave @ [d] else dcpsToSave)"

definition dcpsToSave :: "env \<Rightarrow> dcp list \<Rightarrow> string \<Rightarrow> dcp list" where
  "dcpsToSave e dcps lastDate = pushNew e lastDate dcps []"

text \<open>The timestamp of a reading is strictly after the instant \<open>wm\<close>.\<close>

definition newerThan :: "env \<Rightarrow> int \<Rightarrow> dcp \<Rightarrow> bool" where
  "newerThan e wm d = (case parseDate e (dataHora d) of None \<Rightarrow> False | Some t \<Rightarrow> wm < t)"

section \<open>The file system\<close>

text \<open>
  A path is a directory and a file name in it: \<open>path.join(dir, name)\<close> and
  \<open>dir + "/" + name\<close> denote the same file. A file descriptor is the file it was opened on.
  Directories are told apart by their path as written: the data directory and station codes
  are taken to be free of path separators and dot segments, so that different station codes
  give different directories.
\<close>

definition andThen ::
  "world \<times> 'a outcome \<Rightarrow> ('a \<Rightarrow> world \<Rightarrow> world \<times> 'b outcome) \<Rightarrow> world \<times> 'b outcome" where
  "andThen r f =
     (case r of (w, x) \<Rightarrow>
        (case x of Ok a \<Rightarrow> f a w | Threw er \<Rightarrow> (w, Threw er) | Crashed er \<Rightarrow> (w, Crashed er)))"

text \<open>The warning of \<open>getData\<close> before it creates a directory.\<close>

definition dirWarning :: "string \<Rightarrow> string" where
  "dirWarning dir = ''The directory '' @ dir @ '' does not exist. Creating...''"

definition consoleLog :: "string \<Rightarrow> world \<Rightarrow> world" where
  "consoleLog line w = w\<lparr>console := console w @ [line]\<rparr>"

definition fileContent :: "world \<Rightarrow> string \<Rightarrow> string \<Rightarrow> string option" where
  "fileContent w dir name = (case disk w dir of None \<Rightarrow> None | Some ls \<Rightarrow> map_of ls name)"

definition setFiles :: "string \<Rightarrow> (string \<times> string) list \<Rightarrow> world \<Rightarrow> world" where
  "setFiles dir ls w = w\<lparr>disk := (disk w)(dir \<mapsto> ls)\<rparr>"

definition putFile :: "string \<Rightarrow> string \<Rightarrow> string \<Rightarrow> world \<Rightarrow> world" where
  "putFile dir name content w =
     (case disk w dir of None \<Rightarrow> w
      | Some ls \<Rightarrow> setFiles dir (AList.update name content ls) w)"

definition mkdirSync :: "env \<Rightarrow> string \<Rightarrow> world \<Rightarrow> world \<times> unit outcome" where
  "mkdirSync e dir w =
     (if failMkdir e dir \<or> disk w dir \<noteq> None then (w, Threw (FsError (''mkdir '' @ dir)))
      else (setFiles dir [] w, Ok ()))"

text \<open>
  \<open>fs.writeSync(fd, data)\<close> on a descriptor opened for appending. The descriptor
  \<open>undefined\<close> (\<open>None\<close>) is a \<open>TypeError\<close>.
\<close>

definition writeSync :: "env \<Rightarrow> fd option \<Rightarrow> string \<Rightarrow> world \<Rightarrow> world \<times> unit outcome" where
  "writeSync e fileDescriptor data w =
     (case fileDescriptor of
        None \<Rightarrow> (w, Threw (TypeError ''The fd argument must be of type number''))
      | Some (dir, name) \<Rightarrow>
          (case fileContent w dir name of
             None \<Rightarrow> (w, Threw (FsError (''EBADF '' @ dir @ ''/'' @ name)))
           | Some old \<Rightarrow>
               if failWrite e dir name then (w, Threw (FsError (''write '' @ dir @ ''/'' @ name)))
               else (putFile dir name (old @ data) w, Ok ())))"

text \<open>
  \<open>openFile\<close>: \<open>fs.openSync(fileName, 'a+')\<close> creates a missing file, empty. In a missing
  directory both \<open>openSync\<close> calls throw, the descriptor is still \<open>null\<close> in the \<open>finally\<close>
  block, whose \<open>return\<close> replaces the exception: the message is printed and \<open>undefined\<close>
  returned. The header is written when the size is 0; a failing write there leaves
  \<open>openFile\<close> by its exception.
\<close>

definition openFile :: "env \<Rightarrow> string \<Rightarrow> string \<Rightarrow> string \<Rightarrow> world \<Rightarrow> world \<times> fd option outcome" where
  "openFile e dir name defaultData w =
     (case disk w dir of
        None \<Rightarrow> (consoleLog (''Could not open file '' @ dir @ ''/'' @ name) w, Ok None)
      | Some ls \<Rightarrow>
          (let w1 = (case map_of ls name of None \<Rightarrow> putFile dir name [] w | Some c \<Rightarrow> w);
               fileSize = (case map_of ls name of None \<Rightarrow> 0 | Some c \<Rightarrow> length c)
           in if fileSize = 0
              then andThen (writeSync e (Some (dir, name)) defaultData w1)
                     (\<lambda>u w2. (w2, Ok (Some (dir, name))))
              else (w1, Ok (Some (dir, name)))))"

text \<open>
  \<open>listFileFromDirectory\<close> on the files of a directory that exists (\<open>getData\<close> calls it
  only after \<open>fs.existsSync\<close> answered true).
\<close>

definition listFileFromDirectory :: "(string \<times> string) list \<Rightarrow> string list" where
  "listFileFromDirectory ls = map fst ls"

text \<open>
  \<open>getLastDate\<close> and \<open>saveLastDate\<close> read the file first and \<open>throw err\<close> inside the
  callback of \<open>fs.readFile\<close> when that fails. \<open>saveLastDate\<close> then replaces the content and
  resolves to whether \<open>fs.writeFile\<close> succeeded.
\<close>

definition getLastDate :: "string \<Rightarrow> world \<Rightarrow> world \<times> string outcome" where
  "getLastDate dir w =
     (case fileContent w dir ''lastDate.dat'' of
        None \<Rightarrow> (w, Crashed (FsError (''ENOENT '' @ dir @ ''/lastDate.dat'')))
      | Some content \<Rightarrow> (w, Ok content))"

definition saveLastDate :: "env \<Rightarrow> string \<Rightarrow> string \<Rightarrow> world \<Rightarrow> world \<times> bool outcome" where
  "saveLastDate e dir newDate w =
     (case fileContent w dir ''lastDate.dat'' of
        None \<Rightarrow> (w, Crashed (FsError (''ENOENT '' @ dir @ ''/lastDate.dat'')))
      | Some content \<Rightarrow>
          if failWrite e dir ''lastDate.dat'' then (w, Ok False)
          else (putFile dir ''lastDate.dat'' newDate w, Ok True))"

section \<open>The class \<open>Cemaden\<close>\<close>

definition newCemaden :: "config \<Rightarrow> error + config" where
  "newCemaden configFile =
     (if dataDir configFile = [] then
        Inl (ConfigFileError (''No data directory set to store data. Please check key '' @ [CHR 0x22] @ ''dataDir'' @ [CHR 0x22] @ '' in config.json''))
      else if url configFile = [] then
        Inl (ConfigFileError (''Could not find attribute '' @ [CHR 0x22] @ ''url'' @ [CHR 0x22] @ '' in file '' @ [CHR 0x22] @ ''config.json'' @ [CHR 0x22]))
      else Inr configFile)"

text \<open>
  \<open>getDCPs\<close>: one request per call; the readings of the station, in the order of the
  payload; \<open>DisabledDCP\<close> when there is none. The client is always axios, so the
  \<open>ClientError\<close> branch is never taken.
\<close>

definition getDCPs :: "env \<Rightarrow> station \<Rightarrow> world \<Rightarrow> world \<times> dcp list outcome" where
  "getDCPs e st w =
     (let w' = w\<lparr>requests := Suc (requests w)\<rparr> in
      case remote e (requests w) of
        Inl er \<Rightarrow> (w', Threw er)
      | Inr arrayDCPsJsonCemaden \<Rightarrow>
          (let pcdInfoArrary = filter (\<lambda>element. codestacao element = codEstacao st) arrayDCPsJsonCemaden
           in if pcdInfoArrary = [] then (w', Threw (DisabledDCP (codEstacao st)))
              else (w', Ok pcdInfoArrary)))"

text \<open>The loop of \<open>getData\<close> that writes one line per reading.\<close>

fun writeLines :: "env \<Rightarrow> string list \<Rightarrow> fd option \<Rightarrow> dcp list \<Rightarrow> world \<Rightarrow> world \<times> unit outcome" where
  "writeLines e ex fileDescriptor [] w = (w, Ok ())"
| "writeLines e ex fileDescriptor (d # ds) w =
     andThen (writeSync e fileDescriptor (buildLine e d (buildKeys d ex)) w)
       (\<lambda>u. writeLines e ex fileDescriptor ds)"

text \<open>
  The block that both branches of \<open>getData\<close> contain: header from the keys of the first
  reading, file named after the last one, \<open>openFile\<close>, one line per reading.
  (\<open>csv().fromFile\<close> reads the file back; its result is not used, and the read is taken
  to succeed.)
\<close>

definition writeBatch ::
  "env \<Rightarrow> config \<Rightarrow> station \<Rightarrow> string \<Rightarrow> dcp \<Rightarrow> dcp \<Rightarrow> dcp list \<Rightarrow> world \<Rightarrow> world \<times> unit outcome" where
  "writeBatch e cfg st dir firstDcp lastDcp dcps w =
     (let header = buildHeader st (buildKeys firstDcp (exclude cfg));
          fileNameSave = buildFileName e lastDcp
      in andThen (openFile e dir (fileNameSave @ ''.dat'') header w)
           (\<lambda>fileDescriptor. writeLines e (exclude cfg) fileDescriptor dcps))"

text \<open>
  The directory of the station: created, with \<open>lastDate.dat\<close> holding the timestamp of the
  last reading, when it does not exist (then \<open>filesInDirectory\<close> stays empty); listed
  otherwise.
\<close>

definition stationFiles :: "env \<Rightarrow> string \<Rightarrow> dcp \<Rightarrow> world \<Rightarrow> world \<times> string list outcome" where
  "stationFiles e dir lastDcp w =
     (case disk w dir of
        None \<Rightarrow>
          andThen (mkdirSync e dir
                     (consoleLog (dirWarning dir) w))
            (\<lambda>u w1. andThen (openFile e dir ''lastDate.dat'' (dataHora lastDcp) w1)
               (\<lambda>fileLastDateDescriptor w2. (w2, Ok [])))
      | Some ls \<Rightarrow> (w, Ok (listFileFromDirectory ls)))"

text \<open>
  The body of the \<open>try\<close> block of \<open>getData\<close> for one station, in two parts: the request
  (\<open>getDataStation\<close>), and what is done with the readings it returned (\<open>saveDCPs\<close>).
  \<open>reject\<close> is not defined in \<open>getData\<close>, so the branch for a missing first reading is a
  \<open>ReferenceError\<close>.
\<close>

definition saveDCPs :: "config \<Rightarrow> env \<Rightarrow> station \<Rightarrow> dcp list \<Rightarrow> world \<Rightarrow> world \<times> dcp list outcome" where
  "saveDCPs cfg e st dcps w1 =
     (case dcps of
        [] \<Rightarrow> (w1, Threw (ReferenceError ''reject is not defined''))
      | firstDcp # rest \<Rightarrow>
          (let lastDcp = last dcps;
               dcpName = codestacao lastDcp;
               dir = dataDir cfg @ ''/'' @ dcpName
           in andThen (stationFiles e dir lastDcp w1) (\<lambda>filesInDirectory w2.
                andThen
                  (if filesInDirectory \<noteq> [] then
                     andThen (getLastDate dir w2) (\<lambda>lastDate w3.
                       case dcpsToSave e dcps lastDate of
                         [] \<Rightarrow> (w3, Ok ())
                       | d # ds \<Rightarrow>
                           andThen (saveLastDate e dir (dataHora (last (d # ds))) w3)
                             (\<lambda>saved. writeBatch e cfg st dir d (last (d # ds)) (d # ds)))
                   else writeBatch e cfg st dir firstDcp lastDcp dcps w2)
                  (\<lambda>u w4. (w4, Ok dcps)))))"

definition getDataStation :: "config \<Rightarrow> env \<Rightarrow> station \<Rightarrow> world \<Rightarrow> world \<times> dcp list outcome" where
  "getDataStation cfg e st w = andThen (getDCPs e st w) (saveDCPs cfg e st)"

text \<open>
  The \<open>for\<close> loop of \<open>getData\<close> with its \<open>catch\<close>: every exception is caught, a
  \<open>DisabledDCP\<close> is reported on the console, any other is dropped.
\<close>

fun getDataLoop ::
  "config \<Rightarrow> env \<Rightarrow> station list \<Rightarrow> dcp list list \<Rightarrow> world \<Rightarrow> world \<times> dcp list list outcome" where
  "getDataLoop cfg e [] outputDCP w = (w, Ok outputDCP)"
| "getDataLoop cfg e (st # sts) outputDCP w =
     (case getDataStation cfg e st w of (w', x) \<Rightarrow>
        (case x of
           Ok dcps \<Rightarrow> getDataLoop cfg e sts (outputDCP @ [dcps]) w'
         | Threw er \<Rightarrow>
             getDataLoop cfg e sts outputDCP
               (case er of
                  DisabledDCP message \<Rightarrow>
                    consoleLog (''Could not retrieve data for station with code: '' @ message) w'
                | _ \<Rightarrow> w')
         | Crashed er \<Rightarrow> (w', Crashed er)))"

definition getData :: "config \<Rightarrow> env \<Rightarrow> world \<Rightarrow> world \<times> dcp list list outcome" where
  "getData cfg e w =
     andThen
       (if disk w (dataDir cfg) = None
        then mkdirSync e (dataDir cfg)
               (consoleLog (dirWarning (dataDir cfg)) w)
        else (w, Ok ()))
       (\<lambda>u. getDataLoop cfg e (stations cfg) [])"

section \<open>The command-line wrapper \<open>example_cemaden.js\<close>\<close>

definition digitChar :: "nat \<Rightarrow> char" where
  "digitChar n = ''0123456789'' ! n"

function showNat :: "nat \<Rightarrow> string" where
  "showNat n = (if n < 10 then [digitChar n] else showNat (n div 10) @ [digitChar (n mod 10)])"
  by pat_completeness auto
termination
  by (relation "measure id") auto

definition errName :: "error \<Rightarrow> string" where
  "errName er =
     (case er of TypeError m \<Rightarrow> ''TypeError'' | ReferenceError m \<Rightarrow> ''ReferenceError''
      | _ \<Rightarrow> ''Error'')"

definition errMessage :: "error \<Rightarrow> string" where
  "errMessage er =
     (case er of ConfigFileError m \<Rightarrow> m | DisabledDCP m \<Rightarrow> m | TransportError m \<Rightarrow> m
      | FsError m \<Rightarrow> m | TypeError m \<Rightarrow> m | ReferenceError m \<Rightarrow> m)"

definition errToString :: "error \<Rightarrow> string" where
  "errToString er = errName er @ '': '' @ errMessage er"

text \<open>
  The script: the console lines and the exit code of the process. An exception of the
  constructor and a crash are uncaught exceptions: Node ends the process with code 1.
\<close>

definition example_cemaden :: "config \<Rightarrow> env \<Rightarrow> world \<Rightarrow> world \<times> nat" where
  "example_cemaden configFile e w =
     (case newCemaden configFile of
        Inl er \<Rightarrow> (w, 1)
      | Inr cfg \<Rightarrow>
          (case getData cfg e w of (w', x) \<Rightarrow>
             (case x of
                Ok dcps \<Rightarrow>
                  (consoleLog (''Done. Saved '' @ showNat (length dcps) @ '' DCPs in '' @ dataDir cfg) w', 0)
              | Threw er \<Rightarrow>
                  (consoleLog (''Got error while retrieving DCPS. '' @ errToString er) w', 1)
              | Crashed er \<Rightarrow> (w', 1))))"

section \<open>Notions used in the statements\<close>

text \<open>The directory of a station, and the readings of a payload that \<open>getDCPs\<close> keeps for it.\<close>

definition stationDir :: "config \<Rightarrow> station \<Rightarrow> string" where
  "stationDir cfg st = dataDir cfg @ ''/'' @ codEstacao st"

definition matching :: "station \<Rightarrow> dcp list \<Rightarrow> dcp list" where
  "matching st payload = filter (\<lambda>element. codestacao element = codEstacao st) payload"

text \<open>The name of the output file of a batch, and the lines \<open>getData\<close> writes for it.\<close>

definition dataFile :: "env \<Rightarrow> dcp \<Rightarrow> string" where
  "dataFile e lastDcp = buildFileName e lastDcp @ ''.dat''"

definition linesOf :: "env \<Rightarrow> config \<Rightarrow> dcp list \<Rightarrow> string" where
  "linesOf e cfg ds = concat (map (\<lambda>d. buildLine e d (buildKeys d (exclude cfg))) ds)"

text \<open>
  The content of a file when \<open>openFile\<close> returns: the header if the file was new or
  empty, what it held otherwise. \<open>batchFiles\<close> is the directory listing after the header
  and the lines of a batch are written.
\<close>

definition opened :: "string \<Rightarrow> string \<Rightarrow> (string \<times> string) list \<Rightarrow> string" where
  "opened header name ls = (case map_of ls name of None \<Rightarrow> header | Some c \<Rightarrow> if c = [] then header else c)"

definition batchFiles ::
  "env \<Rightarrow> config \<Rightarrow> station \<Rightarrow> dcp \<Rightarrow> dcp \<Rightarrow> dcp list \<Rightarrow> (string \<times> string) list \<Rightarrow> (string \<times> string) list" where
  "batchFiles e cfg st firstDcp lastDcp batch ls =
     AList.update (dataFile e lastDcp)
       (opened (buildHeader st (buildKeys firstDcp (exclude cfg))) (dataFile e lastDcp) ls
          @ linesOf e cfg batch) ls"

text \<open>
  \<open>keeps dir name\<close>: nothing but the file \<open>name\<close> of \<open>dir\<close> differs between two
  states; \<open>onlyDir dir\<close>: no other directory differs.
\<close>

definition keeps :: "string \<Rightarrow> string \<Rightarrow> world \<Rightarrow> world \<Rightarrow> bool" where
  "keeps dir name w w' =
     ((\<forall>d. d \<noteq> dir \<longrightarrow> disk w' d = disk w d)
      \<and> (\<forall>n. n \<noteq> name \<longrightarrow> fileContent w' dir n = fileContent w dir n))"

definition onlyDir :: "string \<Rightarrow> world \<Rightarrow> world \<Rightarrow> bool" where
  "onlyDir dir w w' = (\<forall>d. d \<noteq> dir \<longrightarrow> disk w' d = disk w d)"

text \<open>
  The watermark of a station: the instant that \<open>lastDate.dat\<close> holds, \<open>None\<close> when the
  file is missing or does not hold a date. \<open>timeOf\<close> is the instant of a reading.
\<close>

definition watermark :: "env \<Rightarrow> config \<Rightarrow> station \<Rightarrow> world \<Rightarrow> int option" where
  "watermark e cfg st w =
     (case fileContent w (stationDir cfg st) ''lastDate.dat'' of
        None \<Rightarrow> None | Some lastDate \<Rightarrow> parseDate e lastDate)"

definition timeOf :: "env \<Rightarrow> dcp \<Rightarrow> int option" where
  "timeOf e d = parseDate e (dataHora d)"

text \<open>Every reading of every payload carries a timestamp that is a date.\<close>

definition validRemote :: "env \<Rightarrow> bool" where
  "validRemote e =
     (\<forall>n payload. remote e n = Inr payload \<longrightarrow> (\<forall>d \<in> set payload. parseDate e (dataHora d) \<noteq> None))"

text \<open>The state after \<open>n\<close> successive calls of \<open>getData\<close>.\<close>

definition cycles :: "config \<Rightarrow> env \<Rightarrow> nat \<Rightarrow> world \<Rightarrow> world" where
  "cycles cfg e n w = ((\<lambda>w'. fst (getData cfg e w')) ^^ n) w"

text \<open>No directory creation and no write fails.\<close>

definition noFaults :: "env \<Rightarrow> bool" where
  "noFaults e = ((\<forall>dir. \<not> failMkdir e dir) \<and> (\<forall>dir name. \<not> failWrite e dir name))"

text \<open>
  The readings of a list arrive in non-decreasing order of their timestamps (the order the
  remote service is taken to deliver them in).
\<close>

definition notAfter :: "env \<Rightarrow> dcp \<Rightarrow> dcp \<Rightarrow> bool" where
  "notAfter e a b =
     (case timeOf e a of None \<Rightarrow> False
      | Some x \<Rightarrow> (case timeOf e b of None \<Rightarrow> False | Some y \<Rightarrow> x \<le> y))"

definition ascending :: "env \<Rightarrow> dcp list \<Rightarrow> bool" where
  "ascending e ds = sorted_wrt (notAfter e) ds"

text \<open>
  The directory of a station is absent or holds a watermark. A station is settled for a
  payload when the payload has no reading for it, or its watermark is at or after every
  reading the payload has for it.
\<close>

definition wellFormed :: "env \<Rightarrow> config \<Rightarrow> world \<Rightarrow> station \<Rightarrow> bool" where
  "wellFormed e cfg w st =
     (disk w (stationDir cfg st) = None \<or> watermark e cfg st w \<noteq> None)"

definition settled :: "env \<Rightarrow> config \<Rightarrow> dcp list \<Rightarrow> world \<Rightarrow> station \<Rightarrow> bool" where
  "settled e cfg payload w st =
     (matching st payload = []
      \<or> (\<exists>wm. watermark e cfg st w = Some wm
            \<and> (\<forall>d \<in> set (matching st payload). \<exists>t. timeOf e d = Some t \<and> t \<le> wm)))"

text \<open>
  What \<open>getData\<close> returns when no step throws: the readings fetched for each configured
  station that has any, in the order of the configuration.
\<close>

definition batches :: "config \<Rightarrow> dcp list \<Rightarrow> dcp list list" where
  "batches cfg payload =
     map (\<lambda>st. matching st payload) (filter (\<lambda>st. matching st payload \<noteq> []) (stations cfg))"

text \<open>The delimited values of a line: the line without its terminator, split at every \<open>;\<close>.\<close>

fun splitSemi :: "string \<Rightarrow> string list" where
  "splitSemi [] = [[]]"
| "splitSemi (c # cs) =
     (if c = CHR '';'' then [] # splitSemi cs
      else (case splitSemi cs of [] \<Rightarrow> [[c]] | x # xs \<Rightarrow> (c # x) # xs))"

definition dropCRLF :: "string \<Rightarrow> string" where
  "dropCRLF s = (if drop (length s - 2) s = CRLF then take (length s - 2) s else s)"

definition cellsOf :: "string \<Rightarrow> string list" where
  "cellsOf s = splitSemi (dropCRLF s)"

section \<open>A sample deployment\<close>

text \<open>
  Three instants of one morning as the remote service writes them, with their time values
  and the two renderings moment gives them; any other text is an invalid date.
\<close>

definition sampleParse :: "string \<Rightarrow> int option" where
  "sampleParse = map_of
     [(''2019-07-22 10:00:00.0'', 1563789600000),
      (''2019-07-22 10:10:00.0'', 1563790200000),
      (''2019-07-22 10:20:00.0'', 1563790800000)]"

definition sampleLine :: "string \<Rightarrow> string" where
  "sampleLine s = (case map_of
     [(''2019-07-22 10:00:00.0'', ''07/22/2019 10:00:00''),
      (''2019-07-22 10:10:00.0'', ''07/22/2019 10:10:00''),
      (''2019-07-22 10:20:00.0'', ''07/22/2019 10:20:00'')] s
     of None \<Rightarrow> ''Invalid date'' | Some r \<Rightarrow> r)"

definition sampleName :: "string \<Rightarrow> string" where
  "sampleName s = (case map_of
     [(''2019-07-22 10:00:00.0'', ''20190722_100000''),
      (''2019-07-22 10:10:00.0'', ''20190722_101000''),
      (''2019-07-22 10:20:00.0'', ''20190722_102000'')] s
     of None \<Rightarrow> ''Invalid date'' | Some r \<Rightarrow> r)"

definition reading :: "string \<Rightarrow> string \<Rightarrow> string \<Rightarrow> dcp" where
  "reading code when rain =
     \<lparr>codestacao = code, dataHora = when,
      props = [(''codestacao'', Some code), (''dataHora'', Some when), (''chuva'', Some rain)]\<rparr>"

definition r1 :: dcp where "r1 = reading ''S1'' ''2019-07-22 10:00:00.0'' ''0.0''"
definition r2 :: dcp where "r2 = reading ''S1'' ''2019-07-22 10:10:00.0'' ''0.2''"
definition r3 :: dcp where "r3 = reading ''S1'' ''2019-07-22 10:20:00.0'' ''0.4''"

definition sampleEnv :: env where
  "sampleEnv =
     \<lparr>parseDate = sampleParse, formatLine = sampleLine, formatName = sampleName,
      remote = (\<lambda>n. Inr [r1, r2, r3]),
      failMkdir = (\<lambda>dir. False), failWrite = (\<lambda>dir name. False)\<rparr>"

definition stS1 :: station where "stS1 = \<lparr>codEstacao = ''S1''\<rparr>"

definition sampleConfig :: config where
  "sampleConfig =
     \<lparr>dataDir = ''/data'', url = ''http://sjc.salvar.cemaden.gov.br/resources/dados/SP_1.json'',
      stations = [stS1], exclude = [''codestacao'', ''dataHora'']\<rparr>"

definition emptyWorld :: world where
  "emptyWorld = \<lparr>disk = Map.empty, console = [], requests = 0\<rparr>"

text \<open>The state after a cycle that saved \<open>r1\<close> and \<open>r2\<close>.\<close>

definition savedWorld :: world where
  "savedWorld =
     \<lparr>disk = [''/data'' \<mapsto> [],
              ''/data/S1'' \<mapsto>
                [(''lastDate.dat'', ''2019-07-22 10:10:00.0''),
                 (''S1_20190722_101000.dat'',
                  ''TIMESTAMP;chuva'' @ CRLF @ ''07/22/2019 10:00:00;0.0'' @ CRLF
                    @ ''07/22/2019 10:10:00;0.2'' @ CRLF)]],
      console = [], requests = 1\<rparr>"

text \<open>A state in which the directory of the station exists and is empty.\<close>

definition emptyDirWorld :: world where
  "emptyDirWorld = \<lparr>disk = [''/data'' \<mapsto> [], ''/data/S1'' \<mapsto> []], console = [], requests = 0\<rparr>"


text \<open>
  A second station with one reading, a payload for both stations, a service whose first
  request times out, and a file system that refuses every \<open>mkdir\<close>.
\<close>

definition stS2 :: station where "stS2 = \<lparr>codEstacao = ''S2''\<rparr>"

definition q1 :: dcp where "q1 = reading ''S2'' ''2019-07-22 10:00:00.0'' ''1.0''"

definition twoStations :: config where
  "twoStations = sampleConfig\<lparr>stations := [stS1, stS2]\<rparr>"

definition bothEnv :: env where
  "bothEnv = sampleEnv\<lparr>remote := (\<lambda>n. Inr [r1, r2, r3, q1])\<rparr>"

definition flakyEnv :: env where
  "flakyEnv = sampleEnv\<lparr>remote := (\<lambda>n. if n = 0 then Inl (TransportError ''timeout of 5000ms exceeded'')
                                       else Inr [r1, r2, r3, q1])\<rparr>"

definition readOnlyEnv :: env where
  "readOnlyEnv = sampleEnv\<lparr>failMkdir := (\<lambda>dir. True)\<rparr>"

text \<open>A reading of the first station with one more sensor, and a payload that holds it.\<close>

definition r2n :: dcp where
  "r2n = \<lparr>codestacao = ''S1'', dataHora = ''2019-07-22 10:10:00.0'',
          props = [(''codestacao'', Some ''S1''), (''dataHora'', Some ''2019-07-22 10:10:00.0''),
                   (''chuva'', Some ''0.2''), (''nivel'', Some ''1.5'')]\<rparr>"

definition mixedEnv :: env where
  "mixedEnv = sampleEnv\<lparr>remote := (\<lambda>n. Inr [r1, r2n])\<rparr>"

section \<open>Evaluating the model\<close>

text \<open>The equations that evaluate the model and the sample deployment on a concrete input.\<close>

lemmas model_defs = getDataStation_def getDCPs_def saveDCPs_def stationFiles_def getLastDate_def
  saveLastDate_def writeBatch_def openFile_def writeSync_def putFile_def mkdirSync_def
  fileContent_def andThen_def consoleLog_def setFiles_def listFileFromDirectory_def
  dcpsToSave_def compareDates_def isSameOrBefore_def buildHeader_def buildLine_def buildKeys_def
  buildFileName_def cell_def dirWarning_def Let_def getData_def

lemmas sample_defs = sampleEnv_def sampleConfig_def sampleParse_def sampleLine_def sampleName_def
  stS1_def r1_def r2_def r3_def reading_def emptyWorld_def

section \<open>The filter and the formatting functions\<close>

lemma pushNew_filter:
  "pushNew e lastDate ds acc = acc @ filter (\<lambda>d. compareDates e (dataHora d) lastDate) ds"
  by (induction ds arbitrary: acc) auto

lemma dcpsToSave_filter:
  "dcpsToSave e dcps lastDate = filter (\<lambda>d. compareDates e (dataHora d) lastDate) dcps"
  by (simp add: dcpsToSave_def pushNew_filter)

lemma compareDates_valid:
  "parseDate e lastDate = Some wm \<Longrightarrow> parseDate e s = Some t \<Longrightarrow>
   compareDates e s lastDate = (wm < t)"
  by (auto simp: compareDates_def isSameOrBefore_def)

lemma compareDates_newerThan:
  "parseDate e lastDate = Some wm \<Longrightarrow> parseDate e (dataHora d) \<noteq> None \<Longrightarrow>
   compareDates e (dataHora d) lastDate = newerThan e wm d"
  by (auto simp: newerThan_def compareDates_valid)

text \<open>
  Claim C2. When the watermark and the timestamps of the readings are dates, the
  deduplication filter returns exactly the readings whose timestamp is strictly after the
  watermark, compared in milliseconds: a reading at or before the watermark is left out,
  and the readings kept are in the order of the input.
\<close>

theorem C2_filter_strictly_newer:
  assumes "parseDate e lastDate = Some wm"
    and "\<forall>d \<in> set dcps. parseDate e (dataHora d) \<noteq> None"
  shows "dcpsToSave e dcps lastDate = filter (newerThan e wm) dcps
       \<and> subseq (dcpsToSave e dcps lastDate) dcps
       \<and> (\<forall>d \<in> set dcps. \<forall>t. parseDate e (dataHora d) = Some t \<and> t \<le> wm
             \<longrightarrow> d \<notin> set (dcpsToSave e dcps lastDate))"
proof -
  have eq: "dcpsToSave e dcps lastDate = filter (newerThan e wm) dcps"
    unfolding dcpsToSave_filter
    by (rule filter_cong) (use assms in \<open>auto simp: compareDates_newerThan\<close>)
  have sub: "subseq (filter (newerThan e wm) dcps) dcps"
    by simp
  have out: "\<forall>d \<in> set dcps. \<forall>t. parseDate e (dataHora d) = Some t \<and> t \<le> wm
             \<longrightarrow> d \<notin> set (filter (newerThan e wm) dcps)"
    by (auto simp: newerThan_def)
  from eq sub out show ?thesis by simp
qed

theorem C2_filter_strictly_newer_witness:
  "parseDate sampleEnv ''2019-07-22 10:10:00.0'' = Some 1563790200000
   \<and> list_all (\<lambda>d. parseDate sampleEnv (dataHora d) \<noteq> None) [r1, r2, r3]
   \<and> dcpsToSave sampleEnv [r1, r2, r3] ''2019-07-22 10:10:00.0'' = [r3]"
proof -
  have h1: "parseDate sampleEnv ''2019-07-22 10:10:00.0'' = Some 1563790200000"
    by (simp add: sampleEnv_def sampleParse_def)
  have h2: "\<forall>d \<in> set [r1, r2, r3]. parseDate sampleEnv (dataHora d) \<noteq> None"
    by (simp add: sampleEnv_def sampleParse_def r1_def r2_def r3_def reading_def)
  have "filter (newerThan sampleEnv 1563790200000) [r1, r2, r3] = [r3]"
    by (simp add: newerThan_def sampleEnv_def sampleParse_def r1_def r2_def r3_def reading_def)
  with C2_filter_strictly_newer [OF h1 h2] h1 h2 show ?thesis by (simp add: list_all_iff)
qed

lemma suffix_CRLF_last: "suffix CRLF s \<Longrightarrow> s \<noteq> [] \<and> last s = CHR 0x0A"
  by (auto simp: suffix_def CRLF_def)

lemma buildKeys_all_excluded:
  "set (map fst (props d)) \<subseteq> set ex \<Longrightarrow> buildKeys d ex = []"
  by (auto simp: buildKeys_def filter_empty_conv)

text \<open>
  Claim C10, amended. For a reading all of whose keys, the key \<open>dataHora\<close> of the timestamp
  among them, are listed in the excluded fields, the data line is the formatted timestamp
  followed by one \<open>;\<close> and the header is \<open>TIMESTAMP;\<close>; neither ends with the line
  terminator.
\<close>

theorem C10_all_keys_excluded:
  assumes "set (map fst (props d)) \<subseteq> set ex"
  shows "buildLine e d (buildKeys d ex) = formatLine e (dataHora d) @ '';''
       \<and> buildHeader st (buildKeys d ex) = ''TIMESTAMP;''
       \<and> \<not> suffix CRLF (buildLine e d (buildKeys d ex))
       \<and> \<not> suffix CRLF (buildHeader st (buildKeys d ex))"
proof -
  have k: "buildKeys d ex = []"
    using assms by (rule buildKeys_all_excluded)
  have l: "buildLine e d (buildKeys d ex) = formatLine e (dataHora d) @ '';''"
    by (simp add: k buildLine_def)
  have h: "buildHeader st (buildKeys d ex) = ''TIMESTAMP;''"
    by (simp add: k buildHeader_def)
  have nl: "\<not> suffix CRLF (formatLine e (dataHora d) @ '';'')"
    using suffix_CRLF_last [of "formatLine e (dataHora d) @ '';''"] by auto
  have nh: "\<not> suffix CRLF ''TIMESTAMP;''"
    using suffix_CRLF_last [of "''TIMESTAMP;''"] by auto
  from l h nl nh show ?thesis by simp
qed

theorem C10_all_keys_excluded_witness:
  "set (map fst (props r1)) \<subseteq> set [''codestacao'', ''dataHora'', ''chuva'']
   \<and> buildLine sampleEnv r1 (buildKeys r1 [''codestacao'', ''dataHora'', ''chuva''])
       = ''07/22/2019 10:00:00;''
   \<and> buildHeader stS1 (buildKeys r1 [''codestacao'', ''dataHora'', ''chuva'']) = ''TIMESTAMP;''"
proof -
  have h: "set (map fst (props r1)) \<subseteq> set [''codestacao'', ''dataHora'', ''chuva'']"
    by (simp add: r1_def reading_def)
  have f: "formatLine sampleEnv (dataHora r1) = ''07/22/2019 10:00:00''"
    by (simp add: sampleEnv_def sampleLine_def r1_def reading_def)
  from C10_all_keys_excluded [OF h, of sampleEnv stS1] h f show ?thesis by simp
qed

text \<open>
  The claim as written asks only for the keys other than the timestamp to be excluded.
  With \<open>codestacao\<close> and \<open>chuva\<close> excluded and \<open>dataHora\<close> not, the key \<open>dataHora\<close> is a
  column like any other: the line carries its value and ends with the line terminator.
\<close>

theorem C10_counterexample:
  "buildKeys r1 [''codestacao'', ''chuva''] = [''dataHora'']
   \<and> buildLine sampleEnv r1 (buildKeys r1 [''codestacao'', ''chuva''])
       = ''07/22/2019 10:00:00;2019-07-22 10:00:00.0'' @ CRLF
   \<and> buildLine sampleEnv r1 (buildKeys r1 [''codestacao'', ''chuva''])
       \<noteq> formatLine sampleEnv (dataHora r1) @ '';''
   \<and> buildHeader stS1 (buildKeys r1 [''codestacao'', ''chuva'']) = ''TIMESTAMP;dataHora'' @ CRLF"
  by (simp add: buildKeys_def buildLine_def buildHeader_def cell_def r1_def reading_def
      sampleEnv_def sampleLine_def CRLF_def)

section \<open>Operations that succeed\<close>

lemma disk_setFiles [simp]: "disk (setFiles dir ls w) = (disk w)(dir \<mapsto> ls)"
  by (simp add: setFiles_def)

lemma console_setFiles [simp]: "console (setFiles dir ls w) = console w"
  by (simp add: setFiles_def)

lemma requests_setFiles [simp]: "requests (setFiles dir ls w) = requests w"
  by (simp add: setFiles_def)

lemma disk_consoleLog [simp]: "disk (consoleLog m w) = disk w"
  by (simp add: consoleLog_def)

lemma requests_consoleLog [simp]: "requests (consoleLog m w) = requests w"
  by (simp add: consoleLog_def)

lemma console_consoleLog [simp]: "console (consoleLog m w) = console w @ [m]"
  by (simp add: consoleLog_def)

lemma setFiles_twice [simp]: "setFiles dir ls' (setFiles dir ls w) = setFiles dir ls' w"
  by (rule world.equality) simp_all

lemma setFiles_same: "disk w dir = Some ls \<Longrightarrow> setFiles dir ls w = w"
  by (rule world.equality) (simp_all add: map_upd_triv)

lemma writeSync_ok:
  assumes "disk w dir = Some ls" "map_of ls name = Some old" "\<not> failWrite e dir name"
  shows "writeSync e (Some (dir, name)) data w
         = (setFiles dir (AList.update name (old @ data) ls) w, Ok ())"
  using assms by (simp add: writeSync_def fileContent_def putFile_def)

lemma writeLines_ok:
  assumes "disk w dir = Some ls" "map_of ls name = Some old" "\<not> failWrite e dir name"
  shows "writeLines e ex (Some (dir, name)) ds w
         = (setFiles dir
              (AList.update name (old @ concat (map (\<lambda>d. buildLine e d (buildKeys d ex)) ds)) ls) w, Ok ())"
  using assms
proof (induction ds arbitrary: w ls old)
  case Nil
  then show ?case by (simp add: AList.update_triv setFiles_same)
next
  case (Cons d ds)
  let ?line = "buildLine e d (buildKeys d ex)"
  let ?w1 = "setFiles dir (AList.update name (old @ ?line) ls) w"
  have s: "writeSync e (Some (dir, name)) ?line w = (?w1, Ok ())"
    using Cons.prems by (rule writeSync_ok)
  have d1: "disk ?w1 dir = Some (AList.update name (old @ ?line) ls)" by simp
  have m1: "map_of (AList.update name (old @ ?line) ls) name = Some (old @ ?line)"
    by (simp add: AList.update_conv')
  have ih: "writeLines e ex (Some (dir, name)) ds ?w1
      = (setFiles dir (AList.update name ((old @ ?line) @
            concat (map (\<lambda>d. buildLine e d (buildKeys d ex)) ds))
            (AList.update name (old @ ?line) ls)) ?w1, Ok ())"
    by (rule Cons.IH [OF d1 m1 Cons.prems(3)])
  have "writeLines e ex (Some (dir, name)) (d # ds) w = writeLines e ex (Some (dir, name)) ds ?w1"
    by (simp add: s andThen_def)
  also note ih
  finally show ?case by (simp del: writeLines.simps)
qed

lemma openFile_ok:
  assumes "disk w dir = Some ls" "\<not> failWrite e dir name"
  shows "openFile e dir name header w
         = (setFiles dir (AList.update name (opened header name ls) ls) w, Ok (Some (dir, name)))"
proof (cases "map_of ls name")
  case None
  then show ?thesis using assms
    by (simp add: openFile_def putFile_def writeSync_def fileContent_def andThen_def opened_def
        AList.update_conv')
next
  case (Some c)
  then show ?thesis using assms
    by (cases "c = []")
      (simp_all add: openFile_def putFile_def writeSync_def fileContent_def andThen_def opened_def
        AList.update_triv setFiles_same)
qed

lemma dataFile_not_lastDate: "dataFile e d \<noteq> ''lastDate.dat''"
proof
  assume "dataFile e d = ''lastDate.dat''"
  then have "set (dataFile e d) = set ''lastDate.dat''" by simp
  moreover have "CHR ''_'' \<in> set (dataFile e d)"
    by (simp add: dataFile_def buildFileName_def)
  ultimately show False by simp
qed

lemma writeBatch_ok:
  assumes "disk w dir = Some ls" "\<not> failWrite e dir (dataFile e lastDcp)"
  shows "writeBatch e cfg st dir firstDcp lastDcp batch w
         = (setFiles dir (batchFiles e cfg st firstDcp lastDcp batch ls) w, Ok ())"
proof -
  let ?name = "dataFile e lastDcp"
  let ?header = "buildHeader st (buildKeys firstDcp (exclude cfg))"
  let ?ls1 = "AList.update ?name (opened ?header ?name ls) ls"
  have o: "openFile e dir ?name ?header w = (setFiles dir ?ls1 w, Ok (Some (dir, ?name)))"
    using assms by (rule openFile_ok)
  have d1: "disk (setFiles dir ?ls1 w) dir = Some ?ls1" by simp
  have m1: "map_of ?ls1 ?name = Some (opened ?header ?name ls)"
    by (simp add: AList.update_conv')
  have l: "writeLines e (exclude cfg) (Some (dir, ?name)) batch (setFiles dir ?ls1 w)
      = (setFiles dir (AList.update ?name (opened ?header ?name ls
            @ concat (map (\<lambda>d. buildLine e d (buildKeys d (exclude cfg))) batch)) ?ls1)
          (setFiles dir ?ls1 w), Ok ())"
    by (rule writeLines_ok [OF d1 m1 assms(2)])
  have "writeBatch e cfg st dir firstDcp lastDcp batch w
      = writeLines e (exclude cfg) (Some (dir, ?name)) batch (setFiles dir ?ls1 w)"
    using o by (simp add: writeBatch_def andThen_def dataFile_def)
  also note l
  finally show ?thesis by (simp add: batchFiles_def linesOf_def)
qed

lemma getDCPs_payload:
  assumes "remote e (requests w) = Inr payload"
  shows "getDCPs e st w =
     (w\<lparr>requests := Suc (requests w)\<rparr>,
      if matching st payload = [] then Threw (DisabledDCP (codEstacao st))
      else Ok (matching st payload))"
  using assms by (simp add: getDCPs_def matching_def)

lemma getDCPs_error:
  assumes "remote e (requests w) = Inl er"
  shows "getDCPs e st w = (w\<lparr>requests := Suc (requests w)\<rparr>, Threw er)"
  using assms by (simp add: getDCPs_def)

lemma last_matching:
  assumes "matching st payload \<noteq> []"
  shows "codestacao (last (matching st payload)) = codEstacao st"
proof -
  have "last (matching st payload) \<in> set (matching st payload)"
    using assms by (rule last_in_set)
  then show ?thesis by (simp add: matching_def)
qed

lemma stationFiles_fresh:
  assumes "disk w dir = None" "\<not> failMkdir e dir" "\<not> failWrite e dir ''lastDate.dat''"
  shows "stationFiles e dir lastDcp w
     = (setFiles dir [(''lastDate.dat'', dataHora lastDcp)]
          (consoleLog (dirWarning dir) w), Ok [])"
proof -
  let ?w1 = "consoleLog (dirWarning dir) w"
  have m: "mkdirSync e dir ?w1 = (setFiles dir [] ?w1, Ok ())"
    using assms by (simp add: mkdirSync_def)
  have d: "disk (setFiles dir [] ?w1) dir = Some []" by simp
  have o: "openFile e dir ''lastDate.dat'' (dataHora lastDcp) (setFiles dir [] ?w1)
      = (setFiles dir (AList.update ''lastDate.dat'' (opened (dataHora lastDcp) ''lastDate.dat'' []) [])
           (setFiles dir [] ?w1), Ok (Some (dir, ''lastDate.dat'')))"
    by (rule openFile_ok [OF d assms(3)])
  show ?thesis
    using assms(1) by (simp add: stationFiles_def m o andThen_def opened_def)
qed

lemma stationFiles_existing:
  assumes "disk w dir = Some ls"
  shows "stationFiles e dir lastDcp w = (w, Ok (map fst ls))"
  using assms by (simp add: stationFiles_def listFileFromDirectory_def)

lemma saveLastDate_ok:
  assumes "disk w dir = Some ls" "map_of ls ''lastDate.dat'' = Some c" "\<not> failWrite e dir ''lastDate.dat''"
  shows "saveLastDate e dir newDate w
     = (setFiles dir (AList.update ''lastDate.dat'' newDate ls) w, Ok True)"
  using assms by (simp add: saveLastDate_def fileContent_def putFile_def)

lemma getLastDate_ok:
  assumes "disk w dir = Some ls" "map_of ls ''lastDate.dat'' = Some c"
  shows "getLastDate dir w = (w, Ok c)"
  using assms by (simp add: getLastDate_def fileContent_def)

lemma saveDCPs_fresh:
  assumes ne: "dcps \<noteq> []"
    and code: "codestacao (last dcps) = codEstacao st"
    and fresh: "disk w (stationDir cfg st) = None"
    and mk: "\<not> failMkdir e (stationDir cfg st)"
    and wr: "\<And>name. \<not> failWrite e (stationDir cfg st) name"
  shows "saveDCPs cfg e st dcps w
     = (setFiles (stationDir cfg st)
          [(''lastDate.dat'', dataHora (last dcps)),
           (dataFile e (last dcps),
            buildHeader st (buildKeys (hd dcps) (exclude cfg)) @ linesOf e cfg dcps)]
          (consoleLog (dirWarning (stationDir cfg st)) w), Ok dcps)"
proof -
  let ?dir = "stationDir cfg st"
  let ?ls1 = "[(''lastDate.dat'', dataHora (last dcps))]"
  let ?w1 = "setFiles ?dir ?ls1 (consoleLog (dirWarning ?dir) w)"
  have f: "stationFiles e ?dir (last dcps) w = (?w1, Ok [])"
    using fresh mk wr by (rule stationFiles_fresh)
  have d1: "disk ?w1 ?dir = Some ?ls1" by simp
  have b: "writeBatch e cfg st ?dir (hd dcps) (last dcps) dcps ?w1
      = (setFiles ?dir (batchFiles e cfg st (hd dcps) (last dcps) dcps ?ls1) ?w1, Ok ())"
    using d1 wr by (rule writeBatch_ok)
  have l: "batchFiles e cfg st (hd dcps) (last dcps) dcps ?ls1
      = [(''lastDate.dat'', dataHora (last dcps)),
         (dataFile e (last dcps),
          buildHeader st (buildKeys (hd dcps) (exclude cfg)) @ linesOf e cfg dcps)]"
    using dataFile_not_lastDate [of e "last dcps"]
    by (auto simp: batchFiles_def opened_def)
  have dir: "dataDir cfg @ ''/'' @ codestacao (last dcps) = ?dir"
    by (simp add: stationDir_def code)
  show ?thesis
    using ne
    by (simp add: saveDCPs_def list.case_eq_if Let_def dir f andThen_def b l
        del: append_Cons)
qed

lemma saveDCPs_existing:
  assumes ne: "dcps \<noteq> []"
    and code: "codestacao (last dcps) = codEstacao st"
    and ex: "disk w (stationDir cfg st) = Some ls"
    and wm: "map_of ls ''lastDate.dat'' = Some lastDate"
    and wr: "\<And>name. \<not> failWrite e (stationDir cfg st) name"
  shows "saveDCPs cfg e st dcps w
     = (case dcpsToSave e dcps lastDate of
          [] \<Rightarrow> (w, Ok dcps)
        | d # ds \<Rightarrow>
            (setFiles (stationDir cfg st)
               (batchFiles e cfg st d (last (d # ds)) (d # ds)
                  (AList.update ''lastDate.dat'' (dataHora (last (d # ds))) ls)) w, Ok dcps))"
proof -
  let ?dir = "stationDir cfg st"
  have dir: "dataDir cfg @ ''/'' @ codestacao (last dcps) = ?dir"
    by (simp add: stationDir_def code)
  have f: "stationFiles e ?dir (last dcps) w = (w, Ok (map fst ls))"
    using ex by (rule stationFiles_existing)
  have nonempty: "map fst ls \<noteq> []"
    using wm by (cases ls) auto
  have g: "getLastDate ?dir w = (w, Ok lastDate)"
    using ex wm by (rule getLastDate_ok)
  have head: "saveDCPs cfg e st dcps w
     = andThen
         (case dcpsToSave e dcps lastDate of
            [] \<Rightarrow> (w, Ok ())
          | d # ds \<Rightarrow>
              andThen (saveLastDate e ?dir (dataHora (last (d # ds))) w)
                (\<lambda>saved. writeBatch e cfg st ?dir d (last (d # ds)) (d # ds)))
         (\<lambda>u w4. (w4, Ok dcps))"
    using ne nonempty
    by (simp add: saveDCPs_def list.case_eq_if Let_def dir f g andThen_def del: append_Cons)
  show ?thesis
  proof (cases "dcpsToSave e dcps lastDate")
    case Nil
    with head show ?thesis by (simp add: andThen_def)
  next
    case (Cons d ds)
    let ?ls1 = "AList.update ''lastDate.dat'' (dataHora (last (d # ds))) ls"
    let ?w1 = "setFiles ?dir ?ls1 w"
    have s: "saveLastDate e ?dir (dataHora (last (d # ds))) w = (?w1, Ok True)"
      using ex wm wr by (rule saveLastDate_ok)
    have d1: "disk ?w1 ?dir = Some ?ls1" by simp
    have b: "writeBatch e cfg st ?dir d (last (d # ds)) (d # ds) ?w1
        = (setFiles ?dir (batchFiles e cfg st d (last (d # ds)) (d # ds) ?ls1) ?w1, Ok ())"
      using d1 wr by (rule writeBatch_ok)
    from head Cons show ?thesis
      by (simp add: s b andThen_def del: last.simps)
  qed
qed

section \<open>What an operation leaves untouched\<close>

lemma keeps_refl: "keeps dir name w w"
  by (simp add: keeps_def)

lemma keeps_same_disk: "disk w' = disk w \<Longrightarrow> keeps dir name w w'"
  by (simp add: keeps_def fileContent_def)

lemma keeps_trans: "keeps dir name w w1 \<Longrightarrow> keeps dir name w1 w2 \<Longrightarrow> keeps dir name w w2"
  by (simp add: keeps_def)

lemma keeps_onlyDir: "keeps dir name w w' \<Longrightarrow> onlyDir dir w w'"
  by (simp add: keeps_def onlyDir_def)

lemma onlyDir_refl: "onlyDir dir w w"
  by (simp add: onlyDir_def)

lemma onlyDir_same_disk: "disk w' = disk w \<Longrightarrow> onlyDir dir w w'"
  by (simp add: onlyDir_def)

lemma onlyDir_trans: "onlyDir dir w w1 \<Longrightarrow> onlyDir dir w1 w2 \<Longrightarrow> onlyDir dir w w2"
  by (simp add: onlyDir_def)

lemma fst_andThen_cases:
  "fst (andThen r f) = (case snd r of Ok a \<Rightarrow> fst (f a (fst r)) | Threw er \<Rightarrow> fst r | Crashed er \<Rightarrow> fst r)"
  by (cases r) (simp add: andThen_def split: outcome.splits)

lemma fst_andThen_return: "fst (andThen r (\<lambda>u w. (w, c u))) = fst r"
  by (cases r) (simp add: andThen_def split: outcome.splits)

lemma keeps_andThen:
  assumes "keeps dir name w (fst r)"
    and "\<And>a. snd r = Ok a \<Longrightarrow> keeps dir name (fst r) (fst (f a (fst r)))"
  shows "keeps dir name w (fst (andThen r f))"
proof (cases "snd r")
  case (Ok a)
  then show ?thesis
    using assms(1) assms(2) [OF Ok] by (simp add: fst_andThen_cases keeps_trans)
next
  case (Threw er)
  then show ?thesis using assms(1) by (simp add: fst_andThen_cases)
next
  case (Crashed er)
  then show ?thesis using assms(1) by (simp add: fst_andThen_cases)
qed

lemma onlyDir_andThen:
  assumes "onlyDir dir w (fst r)"
    and "\<And>a. snd r = Ok a \<Longrightarrow> onlyDir dir (fst r) (fst (f a (fst r)))"
  shows "onlyDir dir w (fst (andThen r f))"
proof (cases "snd r")
  case (Ok a)
  then show ?thesis
    using assms(1) assms(2) [OF Ok] by (simp add: fst_andThen_cases onlyDir_trans)
next
  case (Threw er)
  then show ?thesis using assms(1) by (simp add: fst_andThen_cases)
next
  case (Crashed er)
  then show ?thesis using assms(1) by (simp add: fst_andThen_cases)
qed

lemma keeps_putFile: "keeps dir name w (putFile dir name c w)"
  by (auto simp: keeps_def putFile_def fileContent_def AList.update_conv' split: option.splits)

lemma keeps_writeSync:
  assumes "fd = None \<or> fd = Some (dir, name)"
  shows "keeps dir name w (fst (writeSync e fd data w))"
  using assms
  by (auto simp: writeSync_def keeps_refl keeps_putFile split: option.splits)

lemma keeps_openFile: "keeps dir name w (fst (openFile e dir name header w))"
proof (cases "disk w dir")
  case None
  then show ?thesis by (simp add: openFile_def keeps_same_disk)
next
  case (Some ls)
  let ?w1 = "case map_of ls name of None \<Rightarrow> putFile dir name [] w | Some c \<Rightarrow> w"
  have k1: "keeps dir name w ?w1"
    by (simp add: keeps_refl keeps_putFile split: option.splits)
  have k2: "keeps dir name ?w1 (fst (writeSync e (Some (dir, name)) header ?w1))"
    by (rule keeps_writeSync) simp
  have k3: "keeps dir name w
      (fst (andThen (writeSync e (Some (dir, name)) header ?w1) (\<lambda>u w2. (w2, Ok (Some (dir, name))))))"
    by (rule keeps_trans [OF k1]) (rule keeps_andThen [OF k2], simp add: keeps_refl)
  show ?thesis
    using Some k1 k3 by (simp add: openFile_def Let_def)
qed

lemma openFile_fd:
  assumes "snd (openFile e dir name header w) = Ok fd"
  shows "fd = None \<or> fd = Some (dir, name)"
  using assms
  by (cases "writeSync e (Some (dir, name)) header
               (case map_of (the (disk w dir)) name of None \<Rightarrow> putFile dir name [] w | Some c \<Rightarrow> w)")
     (auto simp: openFile_def Let_def andThen_def split: option.splits if_splits outcome.splits)

lemma keeps_writeLines:
  assumes "fd = None \<or> fd = Some (dir, name)"
  shows "keeps dir name w (fst (writeLines e ex fd ds w))"
proof (induction ds arbitrary: w)
  case Nil
  then show ?case by (simp add: keeps_refl)
next
  case (Cons d ds)
  have "keeps dir name w
      (fst (andThen (writeSync e fd (buildLine e d (buildKeys d ex)) w) (\<lambda>u. writeLines e ex fd ds)))"
    by (rule keeps_andThen) (rule keeps_writeSync [OF assms], rule Cons.IH)
  then show ?case by simp
qed

lemma keeps_writeBatch:
  "keeps dir (dataFile e lastDcp) w (fst (writeBatch e cfg st dir firstDcp lastDcp batch w))"
  unfolding writeBatch_def Let_def dataFile_def [symmetric]
  by (rule keeps_andThen) (rule keeps_openFile, rule keeps_writeLines, erule openFile_fd)

lemma keeps_saveLastDate: "keeps dir ''lastDate.dat'' w (fst (saveLastDate e dir newDate w))"
  by (simp add: saveLastDate_def keeps_refl keeps_putFile split: option.splits)

lemma fileContent_putFile:
  "fileContent w dir name = Some c \<Longrightarrow> fileContent (putFile dir name c' w) dir name = Some c'"
  by (auto simp: fileContent_def putFile_def AList.update_conv' split: option.splits)

lemma saveLastDate_content:
  assumes "fileContent w dir ''lastDate.dat'' = Some c"
  shows "\<exists>saved. snd (saveLastDate e dir newDate w) = Ok saved
       \<and> (fileContent (fst (saveLastDate e dir newDate w)) dir ''lastDate.dat'' = Some c
          \<or> fileContent (fst (saveLastDate e dir newDate w)) dir ''lastDate.dat'' = Some newDate)"
  using assms fileContent_putFile [OF assms, of newDate]
  by (auto simp: saveLastDate_def)

lemma onlyDir_stationFiles: "onlyDir dir w (fst (stationFiles e dir lastDcp w))"
proof (cases "disk w dir")
  case None
  let ?w1 = "consoleLog (dirWarning dir) w"
  have a: "onlyDir dir w ?w1" by (simp add: onlyDir_same_disk)
  have b: "onlyDir dir ?w1 (fst (mkdirSync e dir ?w1))"
    by (simp add: mkdirSync_def onlyDir_def)
  have c: "\<And>w1. onlyDir dir w1
      (fst (andThen (openFile e dir ''lastDate.dat'' (dataHora lastDcp) w1)
              (\<lambda>fileLastDateDescriptor w2. (w2, Ok []))))"
    by (rule onlyDir_andThen) (rule keeps_onlyDir, rule keeps_openFile, simp add: onlyDir_refl)
  have "onlyDir dir ?w1
      (fst (andThen (mkdirSync e dir ?w1)
        (\<lambda>u w1. andThen (openFile e dir ''lastDate.dat'' (dataHora lastDcp) w1)
               (\<lambda>fileLastDateDescriptor w2. (w2, Ok [])))))"
    by (rule onlyDir_andThen) (rule b, rule c)
  from onlyDir_trans [OF a this] None show ?thesis
    by (simp add: stationFiles_def)
next
  case (Some ls)
  then show ?thesis by (simp add: stationFiles_def onlyDir_refl)
qed

lemma onlyDir_saveTail:
  "onlyDir dir w3
     (fst (case ts of [] \<Rightarrow> (w3, Ok ())
           | d # ds \<Rightarrow> andThen (saveLastDate e dir (dataHora (last (d # ds))) w3)
                        (\<lambda>saved. writeBatch e cfg st dir d (last (d # ds)) (d # ds))))"
proof (cases ts)
  case Nil
  then show ?thesis by (simp add: onlyDir_refl)
next
  case (Cons d ds)
  have "onlyDir dir w3
     (fst (andThen (saveLastDate e dir (dataHora (last (d # ds))) w3)
             (\<lambda>saved. writeBatch e cfg st dir d (last (d # ds)) (d # ds))))"
    by (rule onlyDir_andThen)
       (rule keeps_onlyDir, rule keeps_saveLastDate, rule keeps_onlyDir, rule keeps_writeBatch)
  with Cons show ?thesis by (simp del: last.simps)
qed

lemma onlyDir_saveDCPs:
  "onlyDir (dataDir cfg @ ''/'' @ codestacao (last dcps)) w (fst (saveDCPs cfg e st dcps w))"
proof (cases dcps)
  case Nil
  then show ?thesis by (simp add: saveDCPs_def onlyDir_refl)
next
  case (Cons firstDcp rest)
  let ?dir = "dataDir cfg @ ''/'' @ codestacao (last dcps)"
  have inner: "\<And>(files :: string list) w2. onlyDir ?dir w2
      (fst (andThen
         (if files \<noteq> [] then
            andThen (getLastDate ?dir w2) (\<lambda>lastDate w3.
              case dcpsToSave e dcps lastDate of
                [] \<Rightarrow> (w3, Ok ())
              | d # ds \<Rightarrow>
                  andThen (saveLastDate e ?dir (dataHora (last (d # ds))) w3)
                    (\<lambda>saved. writeBatch e cfg st ?dir d (last (d # ds)) (d # ds)))
          else writeBatch e cfg st ?dir firstDcp (last dcps) dcps w2)
         (\<lambda>u w4. (w4, Ok dcps))))"
  proof -
    fix files :: "string list" and w2
    have g: "onlyDir ?dir w2 (fst (getLastDate ?dir w2))"
      by (simp add: getLastDate_def onlyDir_refl split: option.splits)
    have a: "onlyDir ?dir w2
       (fst (andThen (getLastDate ?dir w2) (\<lambda>lastDate w3.
              case dcpsToSave e dcps lastDate of
                [] \<Rightarrow> (w3, Ok ())
              | d # ds \<Rightarrow>
                  andThen (saveLastDate e ?dir (dataHora (last (d # ds))) w3)
                    (\<lambda>saved. writeBatch e cfg st ?dir d (last (d # ds)) (d # ds)))))"
      by (rule onlyDir_andThen [OF g]) (rule onlyDir_saveTail)
    have b: "onlyDir ?dir w2 (fst (writeBatch e cfg st ?dir firstDcp (last dcps) dcps w2))"
      by (rule keeps_onlyDir) (rule keeps_writeBatch)
    show "onlyDir ?dir w2
      (fst (andThen
         (if files \<noteq> [] then
            andThen (getLastDate ?dir w2) (\<lambda>lastDate w3.
              case dcpsToSave e dcps lastDate of
                [] \<Rightarrow> (w3, Ok ())
              | d # ds \<Rightarrow>
                  andThen (saveLastDate e ?dir (dataHora (last (d # ds))) w3)
                    (\<lambda>saved. writeBatch e cfg st ?dir d (last (d # ds)) (d # ds)))
          else writeBatch e cfg st ?dir firstDcp (last dcps) dcps w2)
         (\<lambda>u w4. (w4, Ok dcps))))"
      by (rule onlyDir_andThen) (use a b in \<open>simp_all add: onlyDir_refl\<close>)
  qed
  have "onlyDir ?dir w
     (fst (andThen (stationFiles e ?dir (last dcps) w) (\<lambda>filesInDirectory w2.
         andThen
         (if filesInDirectory \<noteq> [] then
            andThen (getLastDate ?dir w2) (\<lambda>lastDate w3.
              case dcpsToSave e dcps lastDate of
                [] \<Rightarrow> (w3, Ok ())
              | d # ds \<Rightarrow>
                  andThen (saveLastDate e ?dir (dataHora (last (d # ds))) w3)
                    (\<lambda>saved. writeBatch e cfg st ?dir d (last (d # ds)) (d # ds)))
          else writeBatch e cfg st ?dir firstDcp (last dcps) dcps w2)
         (\<lambda>u w4. (w4, Ok dcps)))))"
    by (rule onlyDir_andThen) (rule onlyDir_stationFiles, rule inner)
  then show ?thesis
    unfolding saveDCPs_def Let_def Cons [symmetric] by (simp add: Cons)
qed

lemma disk_getDCPs: "disk (fst (getDCPs e st w)) = disk w"
  by (simp add: getDCPs_def Let_def split: sum.splits)

lemma getDCPs_Ok:
  assumes "snd (getDCPs e st w) = Ok dcps"
  shows "\<exists>payload. remote e (requests w) = Inr payload \<and> dcps = matching st payload \<and> dcps \<noteq> []"
  using assms
  by (auto simp: getDCPs_def Let_def matching_def split: sum.splits if_splits)

lemma onlyDir_getDataStation:
  "onlyDir (stationDir cfg st) w (fst (getDataStation cfg e st w))"
  unfolding getDataStation_def
proof (rule onlyDir_andThen)
  show "onlyDir (stationDir cfg st) w (fst (getDCPs e st w))"
    by (rule onlyDir_same_disk) (rule disk_getDCPs)
next
  fix dcps
  assume "snd (getDCPs e st w) = Ok dcps"
  then obtain payload where "dcps = matching st payload" "dcps \<noteq> []"
    using getDCPs_Ok by blast
  then have "dataDir cfg @ ''/'' @ codestacao (last dcps) = stationDir cfg st"
    using last_matching [of st payload] by (simp add: stationDir_def)
  with onlyDir_saveDCPs [of cfg dcps "fst (getDCPs e st w)" e st]
  show "onlyDir (stationDir cfg st) (fst (getDCPs e st w)) (fst (saveDCPs cfg e st dcps (fst (getDCPs e st w))))"
    by simp
qed

lemma saveDCPs_listed:
  assumes ne: "dcps \<noteq> []"
    and code: "codestacao (last dcps) = codEstacao st"
    and wm: "fileContent w (stationDir cfg st) ''lastDate.dat'' = Some lastDate"
  shows "saveDCPs cfg e st dcps w
     = andThen
         (case dcpsToSave e dcps lastDate of
            [] \<Rightarrow> (w, Ok ())
          | d # ds \<Rightarrow>
              andThen (saveLastDate e (stationDir cfg st) (dataHora (last (d # ds))) w)
                (\<lambda>saved. writeBatch e cfg st (stationDir cfg st) d (last (d # ds)) (d # ds)))
         (\<lambda>u w4. (w4, Ok dcps))"
proof -
  let ?dir = "stationDir cfg st"
  obtain ls where ex: "disk w ?dir = Some ls" and m: "map_of ls ''lastDate.dat'' = Some lastDate"
    using wm by (auto simp: fileContent_def split: option.splits)
  have dir: "dataDir cfg @ ''/'' @ codestacao (last dcps) = ?dir"
    by (simp add: stationDir_def code)
  have f: "stationFiles e ?dir (last dcps) w = (w, Ok (map fst ls))"
    using ex by (rule stationFiles_existing)
  have nonempty: "map fst ls \<noteq> []"
    using m by (cases ls) auto
  have g: "getLastDate ?dir w = (w, Ok lastDate)"
    using ex m by (rule getLastDate_ok)
  show ?thesis
    using ne nonempty
    by (simp add: saveDCPs_def list.case_eq_if Let_def dir f g andThen_def del: append_Cons)
qed

lemma saveDCPs_watermark:
  assumes ne: "dcps \<noteq> []"
    and code: "codestacao (last dcps) = codEstacao st"
    and wm: "fileContent w (stationDir cfg st) ''lastDate.dat'' = Some lastDate"
  shows "fileContent (fst (saveDCPs cfg e st dcps w)) (stationDir cfg st) ''lastDate.dat'' = Some lastDate
       \<or> (dcpsToSave e dcps lastDate \<noteq> []
          \<and> fileContent (fst (saveDCPs cfg e st dcps w)) (stationDir cfg st) ''lastDate.dat''
              = Some (dataHora (last (dcpsToSave e dcps lastDate))))"
proof (cases "dcpsToSave e dcps lastDate")
  case Nil
  then show ?thesis
    using wm by (simp add: saveDCPs_listed [OF ne code wm] andThen_def)
next
  case (Cons d ds)
  let ?dir = "stationDir cfg st"
  let ?new = "dataHora (last (d # ds))"
  let ?r = "saveLastDate e ?dir ?new w"
  obtain saved where ok: "snd ?r = Ok saved"
    and c: "fileContent (fst ?r) ?dir ''lastDate.dat'' = Some lastDate
          \<or> fileContent (fst ?r) ?dir ''lastDate.dat'' = Some ?new"
    using saveLastDate_content [OF wm, of e ?new] by blast
  have k: "keeps ?dir (dataFile e (last (d # ds))) (fst ?r)
      (fst (writeBatch e cfg st ?dir d (last (d # ds)) (d # ds) (fst ?r)))"
    by (rule keeps_writeBatch)
  have same: "fileContent (fst (writeBatch e cfg st ?dir d (last (d # ds)) (d # ds) (fst ?r))) ?dir ''lastDate.dat''
      = fileContent (fst ?r) ?dir ''lastDate.dat''"
    using k dataFile_not_lastDate [of e "last (d # ds)"] by (simp add: keeps_def)
  have "fst (saveDCPs cfg e st dcps w)
      = fst (writeBatch e cfg st ?dir d (last (d # ds)) (d # ds) (fst ?r))"
    using ok Cons
    by (simp add: saveDCPs_listed [OF ne code wm] fst_andThen_return [where c = "\<lambda>u. Ok dcps"]
        fst_andThen_cases del: last.simps)
  with same c Cons show ?thesis by (simp del: last.simps)
qed

section \<open>The watermark never moves back\<close>

lemma stationDir_inject: "stationDir cfg st = stationDir cfg st' \<longleftrightarrow> codEstacao st = codEstacao st'"
  by (simp add: stationDir_def)

lemma stationDir_not_dataDir: "stationDir cfg st \<noteq> dataDir cfg"
  by (simp add: stationDir_def)

lemma watermark_onlyDir:
  assumes "onlyDir dir w w'" "dir \<noteq> stationDir cfg st"
  shows "watermark e cfg st w' = watermark e cfg st w"
  using assms by (auto simp: onlyDir_def watermark_def fileContent_def)

lemma watermark_same_disk: "disk w' = disk w \<Longrightarrow> watermark e cfg st w' = watermark e cfg st w"
  by (simp add: watermark_def fileContent_def)

lemma watermark_consoleLog: "watermark e cfg st (consoleLog m w) = watermark e cfg st w"
  by (rule watermark_same_disk) simp

lemma watermark_getDCPs: "watermark e cfg st (fst (getDCPs e st' w)) = watermark e cfg st w"
  by (rule watermark_same_disk) (rule disk_getDCPs)

lemma dcpsToSave_newer:
  assumes "parseDate e lastDate = Some t0" "d \<in> set (dcpsToSave e dcps lastDate)"
    "parseDate e (dataHora d) = Some t"
  shows "t0 < t"
  using assms by (simp add: dcpsToSave_filter compareDates_valid)

lemma step_monotone:
  assumes valid: "validRemote e" and wm: "watermark e cfg st w = Some t0"
  shows "\<exists>t1. watermark e cfg st (fst (getDataStation cfg e st' w)) = Some t1 \<and> t0 \<le> t1"
proof (cases "codEstacao st' = codEstacao st")
  case False
  then have "stationDir cfg st' \<noteq> stationDir cfg st"
    by (simp add: stationDir_inject)
  with onlyDir_getDataStation [of cfg st' w e]
  have "watermark e cfg st (fst (getDataStation cfg e st' w)) = watermark e cfg st w"
    by (rule watermark_onlyDir)
  with wm show ?thesis by simp
next
  case True
  then have dir: "stationDir cfg st' = stationDir cfg st"
    by (simp add: stationDir_inject)
  let ?w1 = "fst (getDCPs e st' w)"
  have w1: "watermark e cfg st ?w1 = Some t0"
    using wm by (simp add: watermark_getDCPs)
  show ?thesis
  proof (cases "snd (getDCPs e st' w)")
    case (Ok dcps)
    then obtain payload where p: "remote e (requests w) = Inr payload"
      and m: "dcps = matching st' payload" and ne: "dcps \<noteq> []"
      using getDCPs_Ok by blast
    have code: "codestacao (last dcps) = codEstacao st'"
      using m ne last_matching [of st' payload] by simp
    obtain lastDate where l: "fileContent ?w1 (stationDir cfg st') ''lastDate.dat'' = Some lastDate"
      and t0: "parseDate e lastDate = Some t0"
      using w1 by (auto simp: watermark_def dir split: option.splits)
    have step: "fst (getDataStation cfg e st' w) = fst (saveDCPs cfg e st' dcps ?w1)"
      using Ok by (simp add: getDataStation_def fst_andThen_cases)
    from saveDCPs_watermark [OF ne code l, of e]
    show ?thesis
    proof
      assume "fileContent (fst (saveDCPs cfg e st' dcps ?w1)) (stationDir cfg st') ''lastDate.dat''
          = Some lastDate"
      then show ?thesis using t0 by (simp add: step watermark_def dir)
    next
      let ?ts = "dcpsToSave e dcps lastDate"
      assume a: "?ts \<noteq> []
          \<and> fileContent (fst (saveDCPs cfg e st' dcps ?w1)) (stationDir cfg st') ''lastDate.dat''
              = Some (dataHora (last ?ts))"
      then have mem: "last ?ts \<in> set ?ts" by simp
      have "set ?ts \<subseteq> set dcps"
        by (simp add: dcpsToSave_filter)
      moreover have "set dcps \<subseteq> set payload"
        unfolding m matching_def by simp
      ultimately have inp: "last ?ts \<in> set payload"
        using mem by blast
      from valid p have "\<forall>d \<in> set payload. parseDate e (dataHora d) \<noteq> None"
        unfolding validRemote_def by blast
      with inp obtain t where t: "parseDate e (dataHora (last ?ts)) = Some t"
        by blast
      have "t0 < t" using t0 mem t by (rule dcpsToSave_newer)
      with a t show ?thesis by (simp add: step watermark_def dir)
    qed
  next
    case (Threw er)
    then have "fst (getDataStation cfg e st' w) = ?w1"
      by (simp add: getDataStation_def fst_andThen_cases)
    with w1 show ?thesis by simp
  next
    case (Crashed er)
    then have "fst (getDataStation cfg e st' w) = ?w1"
      by (simp add: getDataStation_def fst_andThen_cases)
    with w1 show ?thesis by simp
  qed
qed

lemma getDataLoop_invariant:
  assumes step: "\<And>st w. P w \<Longrightarrow> P (fst (getDataStation cfg e st w))"
    and log: "\<And>m w. P w \<Longrightarrow> P (consoleLog m w)"
    and init: "P w"
  shows "P (fst (getDataLoop cfg e sts out w))"
  using init
proof (induction sts arbitrary: out w)
  case Nil
  then show ?case by simp
next
  case (Cons st sts)
  obtain w' x where r: "getDataStation cfg e st w = (w', x)"
    by (cases "getDataStation cfg e st w")
  have p': "P w'" using step [OF Cons.prems, of st] r by simp
  show ?case
  proof (cases x)
    case (Ok dcps)
    with r Cons.IH [OF p'] show ?thesis by simp
  next
    case (Threw er)
    have "P (case er of DisabledDCP message \<Rightarrow>
               consoleLog (''Could not retrieve data for station with code: '' @ message) w'
             | _ \<Rightarrow> w')"
      using p' log by (cases er) simp_all
    from Cons.IH [OF this] r Threw show ?thesis by simp
  next
    case (Crashed er)
    with r p' show ?thesis by simp
  qed
qed

lemma getData_invariant:
  assumes step: "\<And>st w. P w \<Longrightarrow> P (fst (getDataStation cfg e st w))"
    and log: "\<And>m w. P w \<Longrightarrow> P (consoleLog m w)"
    and mk: "\<And>w. P w \<Longrightarrow> disk w (dataDir cfg) = None \<Longrightarrow> P (setFiles (dataDir cfg) [] w)"
    and init: "P w"
  shows "P (fst (getData cfg e w))"
proof (cases "disk w (dataDir cfg) = None")
  case False
  then have "getData cfg e w = getDataLoop cfg e (stations cfg) [] w"
    by (auto simp: getData_def andThen_def)
  with getDataLoop_invariant [of P cfg e w "stations cfg" "[]", OF step log init]
  show ?thesis by simp
next
  case True
  let ?w1 = "consoleLog (dirWarning (dataDir cfg)) w"
  have p1: "P ?w1" using init by (rule log)
  show ?thesis
  proof (cases "failMkdir e (dataDir cfg)")
    case True
    with \<open>disk w (dataDir cfg) = None\<close> p1 show ?thesis
      by (simp add: getData_def andThen_def mkdirSync_def)
  next
    case False
    have p2: "P (setFiles (dataDir cfg) [] ?w1)"
      using p1 True by (intro mk) simp_all
    have "getData cfg e w = getDataLoop cfg e (stations cfg) [] (setFiles (dataDir cfg) [] ?w1)"
      using True False by (simp add: getData_def andThen_def mkdirSync_def)
    with getDataLoop_invariant [of P cfg e "setFiles (dataDir cfg) [] ?w1" "stations cfg" "[]",
        OF step log p2]
    show ?thesis by simp
  qed
qed

lemma cycle_monotone:
  assumes valid: "validRemote e" and wm: "watermark e cfg st w = Some t0"
  shows "\<exists>t1. watermark e cfg st (fst (getData cfg e w)) = Some t1 \<and> t0 \<le> t1"
proof -
  define P where "P = (\<lambda>w. \<exists>t1. watermark e cfg st w = Some t1 \<and> t0 \<le> t1)"
  have step: "P (fst (getDataStation cfg e st' w'))" if "P w'" for st' w'
  proof -
    from that obtain t1 where a: "watermark e cfg st w' = Some t1" and b: "t0 \<le> t1"
      by (auto simp: P_def)
    from step_monotone [OF valid a, of st'] obtain t2 where
      "watermark e cfg st (fst (getDataStation cfg e st' w')) = Some t2" "t1 \<le> t2"
      by blast
    with b show ?thesis by (auto simp: P_def)
  qed
  have log: "P (consoleLog m w')" if "P w'" for m w'
    using that by (simp add: P_def watermark_consoleLog)
  have mk: "P (setFiles (dataDir cfg) [] w')" if "P w'" for w'
  proof -
    have "watermark e cfg st (setFiles (dataDir cfg) [] w') = watermark e cfg st w'"
      using stationDir_not_dataDir [of cfg st]
      by (simp add: watermark_def fileContent_def)
    with that show ?thesis by (simp add: P_def)
  qed
  have init: "P w" using wm by (simp add: P_def)
  have "P (fst (getData cfg e w))"
    by (rule getData_invariant [of P cfg e w]) (auto intro: step log mk init)
  then show ?thesis by (simp add: P_def)
qed

lemma cycles_monotone:
  assumes valid: "validRemote e" and wm: "watermark e cfg st w = Some t0"
  shows "\<exists>a b. watermark e cfg st (cycles cfg e n w) = Some a
       \<and> watermark e cfg st (cycles cfg e (Suc n) w) = Some b \<and> t0 \<le> a \<and> a \<le> b"
proof (induction n)
  case 0
  from cycle_monotone [OF valid wm] wm show ?case by (simp add: cycles_def)
next
  case (Suc n)
  then obtain a b where a: "watermark e cfg st (cycles cfg e (Suc n) w) = Some b" and ab: "t0 \<le> a" "a \<le> b"
    by blast
  from cycle_monotone [OF valid a] obtain c where
    "watermark e cfg st (fst (getData cfg e (cycles cfg e (Suc n) w))) = Some c" "b \<le> c"
    by blast
  with a ab show ?case by (simp add: cycles_def)
qed

text \<open>
  Claim C5. With readings whose timestamps are dates, the watermark of a station never
  moves back: processing any station leaves it where it is or sets it to a later instant,
  so along every sequence of cycles the value after cycle \<open>n + 1\<close> is at least the value
  after cycle \<open>n\<close>.
\<close>

theorem C5_watermark_monotone:
  assumes "validRemote e" and "watermark e cfg st w = Some t0"
  shows "(\<forall>st'. \<exists>t1. watermark e cfg st (fst (getDataStation cfg e st' w)) = Some t1 \<and> t0 \<le> t1)
       \<and> (\<forall>n. \<exists>a b. watermark e cfg st (cycles cfg e n w) = Some a
                  \<and> watermark e cfg st (cycles cfg e (Suc n) w) = Some b \<and> t0 \<le> a \<and> a \<le> b)"
  using step_monotone [OF assms] cycles_monotone [OF assms] by blast

theorem C5_watermark_monotone_witness:
  "validRemote sampleEnv
   \<and> watermark sampleEnv sampleConfig stS1 savedWorld = Some 1563790200000
   \<and> watermark sampleEnv sampleConfig stS1 (fst (getDataStation sampleConfig sampleEnv stS1 savedWorld))
       = Some 1563790800000
   \<and> watermark sampleEnv sampleConfig stS1 (cycles sampleConfig sampleEnv (Suc 0) savedWorld)
       = Some 1563790800000
   \<and> watermark sampleEnv sampleConfig stS1 (cycles sampleConfig sampleEnv (Suc (Suc 0)) savedWorld)
       = Some 1563790800000"
proof -
  have h1: "validRemote sampleEnv"
    by (simp add: validRemote_def sample_defs savedWorld_def)
  have h2: "watermark sampleEnv sampleConfig stS1 savedWorld = Some 1563790200000"
    by (simp add: watermark_def stationDir_def fileContent_def sample_defs savedWorld_def)
  have s: "watermark sampleEnv sampleConfig stS1 (fst (getDataStation sampleConfig sampleEnv stS1 savedWorld))
       = Some 1563790800000"
    by (simp add: watermark_def stationDir_def model_defs sample_defs savedWorld_def)
  have c1: "watermark sampleEnv sampleConfig stS1 (cycles sampleConfig sampleEnv (Suc 0) savedWorld)
       = Some 1563790800000"
    by (simp add: cycles_def watermark_def stationDir_def model_defs sample_defs savedWorld_def)
  have c2: "watermark sampleEnv sampleConfig stS1 (cycles sampleConfig sampleEnv (Suc (Suc 0)) savedWorld)
       = Some 1563790800000"
    by (simp add: cycles_def watermark_def stationDir_def model_defs sample_defs savedWorld_def)
  from C5_watermark_monotone [OF h1 h2] h1 h2 s c1 c2 show ?thesis by simp
qed

section \<open>The first ingestion of a station\<close>

lemma sample_matching: "matching stS1 [r1, r2, r3] = [r1, r2, r3]"
  by (simp add: matching_def stS1_def r1_def r2_def r3_def reading_def)

lemma sample_dir: "stationDir sampleConfig stS1 = ''/data/S1''"
  by (simp add: stationDir_def sampleConfig_def stS1_def)

text \<open>
  The first ingestion when the directory of the station does not exist yet, with no failing
  directory creation or write: every reading fetched for the station is written without
  any filtering. The step creates \<open>lastDate.dat\<close> and one output file named after the
  station and the timestamp of the last reading, holding the header followed by one line
  per reading, and the watermark is the timestamp of the last reading.
\<close>

lemma first_ingestion_fresh_directory:
  assumes "remote e (requests w) = Inr payload"
    and "matching st payload \<noteq> []"
    and "disk w (stationDir cfg st) = None"
    and "\<not> failMkdir e (stationDir cfg st)"
    and "\<forall>name. \<not> failWrite e (stationDir cfg st) name"
  shows "snd (getDataStation cfg e st w) = Ok (matching st payload)
       \<and> disk (fst (getDataStation cfg e st w)) (stationDir cfg st)
           = Some [(''lastDate.dat'', dataHora (last (matching st payload))),
                   (codEstacao st @ ''_'' @ formatName e (dataHora (last (matching st payload))) @ ''.dat'',
                    buildHeader st (buildKeys (hd (matching st payload)) (exclude cfg))
                      @ concat (map (\<lambda>d. buildLine e d (buildKeys d (exclude cfg)))
                                  (matching st payload)))]
       \<and> watermark e cfg st (fst (getDataStation cfg e st w))
           = parseDate e (dataHora (last (matching st payload)))"
proof -
  let ?dcps = "matching st payload"
  let ?w1 = "w\<lparr>requests := Suc (requests w)\<rparr>"
  have g: "getDCPs e st w = (?w1, Ok ?dcps)"
    using assms(1,2) by (simp add: getDCPs_payload)
  have code: "codestacao (last ?dcps) = codEstacao st"
    using assms(2) by (rule last_matching)
  have fresh: "disk ?w1 (stationDir cfg st) = None"
    using assms(3) by simp
  have wr: "\<And>name. \<not> failWrite e (stationDir cfg st) name"
    using assms(5) by simp
  have s: "saveDCPs cfg e st ?dcps ?w1
     = (setFiles (stationDir cfg st)
          [(''lastDate.dat'', dataHora (last ?dcps)),
           (dataFile e (last ?dcps),
            buildHeader st (buildKeys (hd ?dcps) (exclude cfg)) @ linesOf e cfg ?dcps)]
          (consoleLog (dirWarning (stationDir cfg st)) ?w1), Ok ?dcps)"
    using assms(2) code fresh assms(4) wr by (rule saveDCPs_fresh)
  have r: "getDataStation cfg e st w
     = (setFiles (stationDir cfg st)
          [(''lastDate.dat'', dataHora (last ?dcps)),
           (dataFile e (last ?dcps),
            buildHeader st (buildKeys (hd ?dcps) (exclude cfg)) @ linesOf e cfg ?dcps)]
          (consoleLog (dirWarning (stationDir cfg st)) ?w1), Ok ?dcps)"
    by (simp add: getDataStation_def g andThen_def s)
  have n: "dataFile e (last ?dcps)
      = codEstacao st @ ''_'' @ formatName e (dataHora (last ?dcps)) @ ''.dat''"
    by (simp add: dataFile_def buildFileName_def code)
  show ?thesis
    by (simp add: r n linesOf_def watermark_def fileContent_def del: append_Cons)
qed

lemma first_ingestion_fresh_directory_sample:
  "remote sampleEnv (requests emptyWorld) = Inr [r1, r2, r3]
   \<and> matching stS1 [r1, r2, r3] \<noteq> []
   \<and> disk emptyWorld (stationDir sampleConfig stS1) = None
   \<and> \<not> failMkdir sampleEnv (stationDir sampleConfig stS1)
   \<and> (\<forall>name. \<not> failWrite sampleEnv (stationDir sampleConfig stS1) name)
   \<and> snd (getDataStation sampleConfig sampleEnv stS1 emptyWorld) = Ok [r1, r2, r3]
   \<and> disk (fst (getDataStation sampleConfig sampleEnv stS1 emptyWorld)) ''/data/S1''
       = Some [(''lastDate.dat'', ''2019-07-22 10:20:00.0''),
               (''S1_20190722_102000.dat'',
                ''TIMESTAMP;chuva'' @ CRLF @ ''07/22/2019 10:00:00;0.0'' @ CRLF
                  @ ''07/22/2019 10:10:00;0.2'' @ CRLF @ ''07/22/2019 10:20:00;0.4'' @ CRLF)]
   \<and> watermark sampleEnv sampleConfig stS1 (fst (getDataStation sampleConfig sampleEnv stS1 emptyWorld))
       = Some 1563790800000"
proof -
  have h1: "remote sampleEnv (requests emptyWorld) = Inr [r1, r2, r3]"
    by (simp add: sampleEnv_def)
  have h2: "matching stS1 [r1, r2, r3] \<noteq> []"
    by (simp add: sample_matching)
  have h3: "disk emptyWorld (stationDir sampleConfig stS1) = None"
    by (simp add: emptyWorld_def)
  have h4: "\<not> failMkdir sampleEnv (stationDir sampleConfig stS1)"
    by (simp add: sampleEnv_def)
  have h5: "\<forall>name. \<not> failWrite sampleEnv (stationDir sampleConfig stS1) name"
    by (simp add: sampleEnv_def)
  have header: "buildHeader stS1 (buildKeys r1 (exclude sampleConfig)) = ''TIMESTAMP;chuva'' @ CRLF"
    by (simp add: buildHeader_def buildKeys_def r1_def reading_def sampleConfig_def)
  have l1: "buildLine sampleEnv r1 (buildKeys r1 (exclude sampleConfig)) = ''07/22/2019 10:00:00;0.0'' @ CRLF"
    by (simp add: buildLine_def buildKeys_def cell_def r1_def reading_def sampleConfig_def
        sampleEnv_def sampleLine_def)
  have l2: "buildLine sampleEnv r2 (buildKeys r2 (exclude sampleConfig)) = ''07/22/2019 10:10:00;0.2'' @ CRLF"
    by (simp add: buildLine_def buildKeys_def cell_def r2_def reading_def sampleConfig_def
        sampleEnv_def sampleLine_def)
  have l3: "buildLine sampleEnv r3 (buildKeys r3 (exclude sampleConfig)) = ''07/22/2019 10:20:00;0.4'' @ CRLF"
    by (simp add: buildLine_def buildKeys_def cell_def r3_def reading_def sampleConfig_def
        sampleEnv_def sampleLine_def)
  have name: "formatName sampleEnv ''2019-07-22 10:20:00.0'' = ''20190722_102000''"
    "codEstacao stS1 = ''S1''"
    by (simp_all add: stS1_def sampleEnv_def sampleName_def)
  have last: "dataHora r3 = ''2019-07-22 10:20:00.0''"
    by (simp add: r3_def reading_def)
  have t: "parseDate sampleEnv ''2019-07-22 10:20:00.0'' = Some 1563790800000"
    by (simp add: sampleEnv_def sampleParse_def)
  from first_ingestion_fresh_directory [OF h1 h2 h3 h4 h5] h1 h2 h3 h4 h5
  show ?thesis
    by (simp add: sample_matching sample_dir header l1 l2 l3 name last t)
qed


lemma saveDCPs_empty_directory:
  assumes ne: "dcps \<noteq> []"
    and code: "codestacao (last dcps) = codEstacao st"
    and ex: "disk w (stationDir cfg st) = Some []"
    and wr: "\<And>name. \<not> failWrite e (stationDir cfg st) name"
  shows "saveDCPs cfg e st dcps w
     = (setFiles (stationDir cfg st)
          [(dataFile e (last dcps),
            buildHeader st (buildKeys (hd dcps) (exclude cfg)) @ linesOf e cfg dcps)] w, Ok dcps)"
proof -
  let ?dir = "stationDir cfg st"
  have dir: "dataDir cfg @ ''/'' @ codestacao (last dcps) = ?dir"
    by (simp add: stationDir_def code)
  have f: "stationFiles e ?dir (last dcps) w = (w, Ok [])"
    using stationFiles_existing [OF ex, of e "last dcps"] by simp
  have b: "writeBatch e cfg st ?dir (hd dcps) (last dcps) dcps w
      = (setFiles ?dir (batchFiles e cfg st (hd dcps) (last dcps) dcps []) w, Ok ())"
    using ex wr by (rule writeBatch_ok)
  have l: "batchFiles e cfg st (hd dcps) (last dcps) dcps []
      = [(dataFile e (last dcps),
          buildHeader st (buildKeys (hd dcps) (exclude cfg)) @ linesOf e cfg dcps)]"
    by (simp add: batchFiles_def opened_def)
  show ?thesis
    using ne
    by (simp add: saveDCPs_def list.case_eq_if Let_def dir f andThen_def b l del: append_Cons)
qed

lemma saveDCPs_no_watermark_file:
  assumes ne: "dcps \<noteq> []"
    and code: "codestacao (last dcps) = codEstacao st"
    and ex: "disk w (stationDir cfg st) = Some ls"
    and files: "ls \<noteq> []"
    and none: "map_of ls ''lastDate.dat'' = None"
  shows "saveDCPs cfg e st dcps w
     = (w, Crashed (FsError (''ENOENT '' @ stationDir cfg st @ ''/lastDate.dat'')))"
proof -
  let ?dir = "stationDir cfg st"
  have dir: "dataDir cfg @ ''/'' @ codestacao (last dcps) = ?dir"
    by (simp add: stationDir_def code)
  have f: "stationFiles e ?dir (last dcps) w = (w, Ok (map fst ls))"
    using ex by (rule stationFiles_existing)
  have g: "getLastDate ?dir w = (w, Crashed (FsError (''ENOENT '' @ ?dir @ ''/lastDate.dat'')))"
    using ex none by (simp add: getLastDate_def fileContent_def)
  show ?thesis
    using ne files
    by (simp add: saveDCPs_def list.case_eq_if Let_def dir f g andThen_def del: append_Cons)
qed

text \<open>
  Claim C8, where the code departs from it. The watermark file is created only in the
  branch that creates the directory of the station. When that directory exists and is
  empty, there is no prior watermark either, and the first ingestion writes the output file
  with the header and one line per reading as the claim says, but no \<open>lastDate.dat\<close>: the
  station has no watermark afterwards. The next step for the station finds the directory
  not empty, fails to read \<open>lastDate.dat\<close> and ends the process.
\<close>

theorem C8_empty_directory_leaves_no_watermark:
  assumes "remote e (requests w) = Inr payload"
    and "matching st payload \<noteq> []"
    and "disk w (stationDir cfg st) = Some []"
    and "\<forall>name. \<not> failWrite e (stationDir cfg st) name"
  shows "snd (getDataStation cfg e st w) = Ok (matching st payload)
       \<and> disk (fst (getDataStation cfg e st w)) (stationDir cfg st)
           = Some [(codEstacao st @ ''_'' @ formatName e (dataHora (last (matching st payload))) @ ''.dat'',
                    buildHeader st (buildKeys (hd (matching st payload)) (exclude cfg))
                      @ concat (map (\<lambda>d. buildLine e d (buildKeys d (exclude cfg)))
                                  (matching st payload)))]
       \<and> fileContent (fst (getDataStation cfg e st w)) (stationDir cfg st) ''lastDate.dat'' = None
       \<and> watermark e cfg st (fst (getDataStation cfg e st w)) = None
       \<and> (\<forall>next. remote e (Suc (requests w)) = Inr next \<and> matching st next \<noteq> [] \<longrightarrow>
             snd (getDataStation cfg e st (fst (getDataStation cfg e st w)))
               = Crashed (FsError (''ENOENT '' @ stationDir cfg st @ ''/lastDate.dat'')))"
proof -
  let ?dcps = "matching st payload"
  let ?dir = "stationDir cfg st"
  let ?w1 = "w\<lparr>requests := Suc (requests w)\<rparr>"
  let ?ls = "[(dataFile e (last ?dcps),
               buildHeader st (buildKeys (hd ?dcps) (exclude cfg)) @ linesOf e cfg ?dcps)]"
  let ?w2 = "setFiles ?dir ?ls ?w1"
  have g: "getDCPs e st w = (?w1, Ok ?dcps)"
    using assms(1,2) by (simp add: getDCPs_payload)
  have code: "codestacao (last ?dcps) = codEstacao st"
    using assms(2) by (rule last_matching)
  have ex: "disk ?w1 ?dir = Some []"
    using assms(3) by simp
  have wr: "\<And>name. \<not> failWrite e ?dir name"
    using assms(4) by simp
  have r: "getDataStation cfg e st w = (?w2, Ok ?dcps)"
    by (simp add: getDataStation_def g andThen_def
        saveDCPs_empty_directory [OF assms(2) code ex wr])
  have n: "dataFile e (last ?dcps)
      = codEstacao st @ ''_'' @ formatName e (dataHora (last ?dcps)) @ ''.dat''"
    by (simp add: dataFile_def buildFileName_def code)
  have none: "map_of ?ls ''lastDate.dat'' = None"
    using dataFile_not_lastDate [of e "last ?dcps"] by auto
  have crash: "snd (getDataStation cfg e st ?w2)
      = Crashed (FsError (''ENOENT '' @ ?dir @ ''/lastDate.dat''))"
    if nx: "remote e (Suc (requests w)) = Inr next" "matching st next \<noteq> []" for "next"
  proof -
    let ?w3 = "?w2\<lparr>requests := Suc (requests ?w2)\<rparr>"
    have rem: "remote e (requests ?w2) = Inr next" using nx(1) by simp
    have g2: "getDCPs e st ?w2 = (?w3, Ok (matching st next))"
      using rem nx(2) by (simp add: getDCPs_payload)
    have code2: "codestacao (last (matching st next)) = codEstacao st"
      using nx(2) by (rule last_matching)
    have ex3: "disk ?w3 ?dir = Some ?ls" by simp
    have "saveDCPs cfg e st (matching st next) ?w3
        = (?w3, Crashed (FsError (''ENOENT '' @ ?dir @ ''/lastDate.dat'')))"
      by (rule saveDCPs_no_watermark_file [OF nx(2) code2 ex3 _ none]) simp
    then show ?thesis
      by (simp add: getDataStation_def g2 andThen_def del: append_Cons)
  qed
  have wm: "fileContent ?w2 ?dir ''lastDate.dat'' = None"
    using none by (simp add: fileContent_def)
  show ?thesis
    using crash wm
    by (simp add: r n [symmetric] linesOf_def watermark_def del: append_Cons)
qed

theorem C8_empty_directory_leaves_no_watermark_witness:
  "remote sampleEnv (requests emptyDirWorld) = Inr [r1, r2, r3]
   \<and> matching stS1 [r1, r2, r3] \<noteq> []
   \<and> disk emptyDirWorld (stationDir sampleConfig stS1) = Some []
   \<and> (\<forall>name. \<not> failWrite sampleEnv (stationDir sampleConfig stS1) name)
   \<and> snd (getDataStation sampleConfig sampleEnv stS1 emptyDirWorld) = Ok [r1, r2, r3]
   \<and> disk (fst (getDataStation sampleConfig sampleEnv stS1 emptyDirWorld)) ''/data/S1''
       = Some [(''S1_20190722_102000.dat'',
                ''TIMESTAMP;chuva'' @ CRLF @ ''07/22/2019 10:00:00;0.0'' @ CRLF
                  @ ''07/22/2019 10:10:00;0.2'' @ CRLF @ ''07/22/2019 10:20:00;0.4'' @ CRLF)]
   \<and> fileContent (fst (getDataStation sampleConfig sampleEnv stS1 emptyDirWorld)) ''/data/S1''
         ''lastDate.dat'' = None
   \<and> watermark sampleEnv sampleConfig stS1
         (fst (getDataStation sampleConfig sampleEnv stS1 emptyDirWorld)) = None
   \<and> remote sampleEnv (Suc (requests emptyDirWorld)) = Inr [r1, r2, r3]
   \<and> snd (getDataStation sampleConfig sampleEnv stS1
            (fst (getDataStation sampleConfig sampleEnv stS1 emptyDirWorld)))
       = Crashed (FsError ''ENOENT /data/S1/lastDate.dat'')
   \<and> snd (getData sampleConfig sampleEnv (fst (getData sampleConfig sampleEnv emptyDirWorld)))
       = Crashed (FsError ''ENOENT /data/S1/lastDate.dat'')"
proof -
  have h1: "remote sampleEnv (requests emptyDirWorld) = Inr [r1, r2, r3]"
    by (simp add: sampleEnv_def)
  have h2: "matching stS1 [r1, r2, r3] \<noteq> []"
    by (simp add: matching_def sample_defs)
  have h3: "disk emptyDirWorld (stationDir sampleConfig stS1) = Some []"
    by (simp add: emptyDirWorld_def stationDir_def sample_defs)
  have h4: "\<forall>name. \<not> failWrite sampleEnv (stationDir sampleConfig stS1) name"
    by (simp add: sampleEnv_def)
  have h5: "remote sampleEnv (Suc (requests emptyDirWorld)) = Inr [r1, r2, r3]"
    by (simp add: sampleEnv_def)
  have m: "matching stS1 [r1, r2, r3] = [r1, r2, r3]"
    by (simp add: matching_def sample_defs)
  have d: "stationDir sampleConfig stS1 = ''/data/S1''"
    by (simp add: stationDir_def sample_defs)
  have files: "disk (fst (getDataStation sampleConfig sampleEnv stS1 emptyDirWorld)) ''/data/S1''
       = Some [(''S1_20190722_102000.dat'',
                ''TIMESTAMP;chuva'' @ CRLF @ ''07/22/2019 10:00:00;0.0'' @ CRLF
                  @ ''07/22/2019 10:10:00;0.2'' @ CRLF @ ''07/22/2019 10:20:00;0.4'' @ CRLF)]"
    by (simp add: model_defs sample_defs emptyDirWorld_def)
  have cyc: "snd (getData sampleConfig sampleEnv (fst (getData sampleConfig sampleEnv emptyDirWorld)))
       = Crashed (FsError ''ENOENT /data/S1/lastDate.dat'')"
    by (simp add: model_defs sample_defs emptyDirWorld_def)
  from C8_empty_directory_leaves_no_watermark [OF h1 h2 h3 h4] h1 h2 h3 h4 h5 files cyc
  show ?thesis by (simp add: m d)
qed

section \<open>A failing write after the watermark is saved\<close>





section \<open>Errors inside the loop\<close>

lemma getDataLoop_never_throws: "snd (getDataLoop cfg e sts out w) \<noteq> Threw er"
proof (induction sts arbitrary: out w)
  case Nil
  then show ?case by simp
next
  case (Cons st sts)
  obtain w' x where r: "getDataStation cfg e st w = (w', x)"
    by (cases "getDataStation cfg e st w")
  show ?case
    using r Cons.IH by (cases x) simp_all
qed

lemma getDataLoop_transport:
  assumes "remote e (requests w) = Inl err" "\<forall>m. err \<noteq> DisabledDCP m"
  shows "getDataLoop cfg e (st # sts) out w
     = getDataLoop cfg e sts out (w\<lparr>requests := Suc (requests w)\<rparr>)"
  using assms by (cases err) (simp_all add: getDataStation_def getDCPs_error andThen_def)

lemma getDataLoop_no_data:
  assumes "remote e (requests w) = Inr payload" "matching st payload = []"
  shows "getDataLoop cfg e (st # sts) out w
     = getDataLoop cfg e sts out
         (consoleLog (''Could not retrieve data for station with code: '' @ codEstacao st)
            (w\<lparr>requests := Suc (requests w)\<rparr>))"
  using assms by (simp add: getDataStation_def getDCPs_payload andThen_def del: append_Cons)

lemma getData_throws:
  assumes "snd (getData cfg e w) = Threw er"
  shows "disk w (dataDir cfg) = None \<and> failMkdir e (dataDir cfg)"
proof (rule ccontr)
  assume "\<not> (disk w (dataDir cfg) = None \<and> failMkdir e (dataDir cfg))"
  then have "\<exists>w1. getData cfg e w = getDataLoop cfg e (stations cfg) [] w1"
    by (auto simp: getData_def andThen_def mkdirSync_def)
  with assms getDataLoop_never_throws show False by metis
qed

text \<open>
  Claim C3, amended. An error of the request of a station (timeout, status, malformed
  payload) is caught inside the loop and dropped without a message: the cycle goes on with
  the next station, which sends its own request, and the error never reaches the caller
  (only a failing creation of the data directory makes \<open>getData\<close> reject). A station
  without matching readings is reported on the console and skipped, and the cycle goes on.
\<close>

theorem C3_errors_stay_in_the_loop:
  "(remote e (requests w) = Inl err \<and> (\<forall>m. err \<noteq> DisabledDCP m) \<longrightarrow>
      getDataLoop cfg e (st # sts) out w
        = getDataLoop cfg e sts out (w\<lparr>requests := Suc (requests w)\<rparr>))
   \<and> (remote e (requests w) = Inr payload \<and> matching st payload = [] \<longrightarrow>
      getDataLoop cfg e (st # sts) out w
        = getDataLoop cfg e sts out
            (consoleLog (''Could not retrieve data for station with code: '' @ codEstacao st)
               (w\<lparr>requests := Suc (requests w)\<rparr>)))
   \<and> (\<forall>er. snd (getDataLoop cfg e sts out w) \<noteq> Threw er)
   \<and> (\<forall>er. snd (getData cfg e w) = Threw er \<longrightarrow>
         disk w (dataDir cfg) = None \<and> failMkdir e (dataDir cfg))"
  using getDataLoop_transport [of e w err cfg st sts out]
    getDataLoop_no_data [of e w payload st cfg sts out]
    getDataLoop_never_throws [of cfg e sts out w] getData_throws [of cfg e w]
  by blast

theorem C3_errors_stay_in_the_loop_witness:
  "remote flakyEnv (requests emptyWorld) = Inl (TransportError ''timeout of 5000ms exceeded'')
   \<and> getDataLoop twoStations flakyEnv [stS1, stS2] [] emptyWorld
       = getDataLoop twoStations flakyEnv [stS2] [] (emptyWorld\<lparr>requests := Suc (requests emptyWorld)\<rparr>)
   \<and> remote sampleEnv (requests emptyWorld) = Inr [r1, r2, r3]
   \<and> matching stS2 [r1, r2, r3] = []
   \<and> getDataLoop twoStations sampleEnv [stS2] [] emptyWorld
       = (consoleLog ''Could not retrieve data for station with code: S2''
            (emptyWorld\<lparr>requests := Suc (requests emptyWorld)\<rparr>), Ok [])
   \<and> snd (getData sampleConfig readOnlyEnv emptyWorld) = Threw (FsError ''mkdir /data'')
   \<and> disk emptyWorld (dataDir sampleConfig) = None
   \<and> failMkdir readOnlyEnv (dataDir sampleConfig)"
proof -
  have a: "remote flakyEnv (requests emptyWorld) = Inl (TransportError ''timeout of 5000ms exceeded'')"
    by (simp add: flakyEnv_def emptyWorld_def)
  have b: "remote sampleEnv (requests emptyWorld) = Inr [r1, r2, r3]"
    by (simp add: sampleEnv_def)
  have c: "matching stS2 [r1, r2, r3] = []"
    by (simp add: matching_def sample_defs stS2_def twoStations_def readOnlyEnv_def)
  have d: "snd (getData sampleConfig readOnlyEnv emptyWorld) = Threw (FsError ''mkdir /data'')"
    by (simp add: model_defs sample_defs stS2_def twoStations_def readOnlyEnv_def)
  have code: "codEstacao stS2 = ''S2''" by (simp add: stS2_def)
  from C3_errors_stay_in_the_loop
         [where e = flakyEnv and w = emptyWorld
            and err = "TransportError ''timeout of 5000ms exceeded''" and cfg = twoStations
            and st = stS1 and sts = "[stS2]" and out = "[]"]
       C3_errors_stay_in_the_loop
         [where e = sampleEnv and w = emptyWorld and cfg = twoStations and st = stS2
            and sts = "[]" and out = "[]" and payload = "[r1, r2, r3]"]
       C3_errors_stay_in_the_loop [where e = readOnlyEnv and w = emptyWorld and cfg = sampleConfig]
       a b c d
  show ?thesis by (simp add: code)
qed

text \<open>
  The claim as written fails: the request of the first station times out, the cycle goes on
  with the second station, saves its reading and returns normally; nothing about the
  timeout is printed.
\<close>

theorem C3_counterexample:
  "remote flakyEnv 0 = Inl (TransportError ''timeout of 5000ms exceeded'')
   \<and> snd (getData twoStations flakyEnv emptyWorld) = Ok [[q1]]
   \<and> requests (fst (getData twoStations flakyEnv emptyWorld)) = 2
   \<and> fileContent (fst (getData twoStations flakyEnv emptyWorld)) ''/data/S2'' ''lastDate.dat''
       = Some ''2019-07-22 10:00:00.0''
   \<and> console (fst (getData twoStations flakyEnv emptyWorld))
       = [''The directory /data does not exist. Creating...'',
          ''The directory /data/S2 does not exist. Creating...'']"
  by (simp add: model_defs sample_defs stS2_def q1_def twoStations_def flakyEnv_def)

section \<open>Requests\<close>

lemma requests_andThen:
  assumes "requests (fst r) = n"
    and "\<And>a. snd r = Ok a \<Longrightarrow> requests (fst (f a (fst r))) = requests (fst r)"
  shows "requests (fst (andThen r f)) = n"
  using assms by (cases "snd r") (simp_all add: fst_andThen_cases)

lemma requests_putFile: "requests (putFile dir name c w) = requests w"
  by (simp add: putFile_def split: option.splits)

lemma requests_writeSync: "requests (fst (writeSync e fd data w)) = requests w"
  by (simp add: writeSync_def requests_putFile split: option.splits prod.splits)

lemma requests_openFile: "requests (fst (openFile e dir name header w)) = requests w"
proof (cases "disk w dir")
  case None
  then show ?thesis by (simp add: openFile_def)
next
  case (Some ls)
  let ?w1 = "case map_of ls name of None \<Rightarrow> putFile dir name [] w | Some c \<Rightarrow> w"
  have r1: "requests ?w1 = requests w"
    by (simp add: requests_putFile split: option.splits)
  have "requests (fst (andThen (writeSync e (Some (dir, name)) header ?w1)
                         (\<lambda>u w2. (w2, Ok (Some (dir, name)))))) = requests w"
    by (rule requests_andThen) (simp_all add: requests_writeSync r1)
  with Some r1 show ?thesis by (simp add: openFile_def Let_def)
qed

lemma requests_writeLines: "requests (fst (writeLines e ex fd ds w)) = requests w"
proof (induction ds arbitrary: w)
  case Nil
  then show ?case by simp
next
  case (Cons d ds)
  have "requests (fst (andThen (writeSync e fd (buildLine e d (buildKeys d ex)) w)
                         (\<lambda>u. writeLines e ex fd ds))) = requests w"
    by (rule requests_andThen) (simp_all add: requests_writeSync Cons.IH)
  then show ?case by simp
qed

lemma requests_writeBatch:
  "requests (fst (writeBatch e cfg st dir firstDcp lastDcp batch w)) = requests w"
  unfolding writeBatch_def Let_def
  by (rule requests_andThen) (simp_all add: requests_openFile requests_writeLines)

lemma requests_saveLastDate: "requests (fst (saveLastDate e dir newDate w)) = requests w"
  by (simp add: saveLastDate_def requests_putFile split: option.splits)

lemma requests_getLastDate: "requests (fst (getLastDate dir w)) = requests w"
  by (simp add: getLastDate_def split: option.splits)

lemma requests_stationFiles: "requests (fst (stationFiles e dir lastDcp w)) = requests w"
proof (cases "disk w dir")
  case None
  let ?w1 = "consoleLog (dirWarning dir) w"
  have m: "requests (fst (mkdirSync e dir ?w1)) = requests w"
    by (simp add: mkdirSync_def)
  have "requests (fst (andThen (mkdirSync e dir ?w1)
        (\<lambda>u w1. andThen (openFile e dir ''lastDate.dat'' (dataHora lastDcp) w1)
               (\<lambda>fileLastDateDescriptor w2. (w2, Ok []))))) = requests w"
    by (rule requests_andThen [OF m])
       (simp add: fst_andThen_return [where c = "\<lambda>u. Ok []"] requests_openFile)
  with None show ?thesis by (simp add: stationFiles_def)
next
  case (Some ls)
  then show ?thesis by (simp add: stationFiles_def)
qed

lemma requests_saveTail:
  "requests (fst (case ts of [] \<Rightarrow> (w3, Ok ())
           | d # ds \<Rightarrow> andThen (saveLastDate e dir (dataHora (last (d # ds))) w3)
                        (\<lambda>saved. writeBatch e cfg st dir d (last (d # ds)) (d # ds)))) = requests w3"
proof (cases ts)
  case Nil
  then show ?thesis by simp
next
  case (Cons d ds)
  have "requests (fst (andThen (saveLastDate e dir (dataHora (last (d # ds))) w3)
             (\<lambda>saved. writeBatch e cfg st dir d (last (d # ds)) (d # ds)))) = requests w3"
    by (rule requests_andThen) (simp_all add: requests_saveLastDate requests_writeBatch)
  with Cons show ?thesis by (simp del: last.simps)
qed

lemma requests_saveDCPs: "requests (fst (saveDCPs cfg e st dcps w)) = requests w"
proof (cases dcps)
  case Nil
  then show ?thesis by (simp add: saveDCPs_def)
next
  case (Cons firstDcp rest)
  let ?dir = "dataDir cfg @ ''/'' @ codestacao (last dcps)"
  have tail: "requests (fst (andThen (getLastDate ?dir w2) (\<lambda>lastDate w3.
              case dcpsToSave e dcps lastDate of
                [] \<Rightarrow> (w3, Ok ())
              | d # ds \<Rightarrow>
                  andThen (saveLastDate e ?dir (dataHora (last (d # ds))) w3)
                    (\<lambda>saved. writeBatch e cfg st ?dir d (last (d # ds)) (d # ds))))) = requests w2"
    for w2
    by (rule requests_andThen) (simp_all only: requests_getLastDate requests_saveTail)
  have inner: "requests (fst (andThen
         (if files \<noteq> [] then
            andThen (getLastDate ?dir w2) (\<lambda>lastDate w3.
              case dcpsToSave e dcps lastDate of
                [] \<Rightarrow> (w3, Ok ())
              | d # ds \<Rightarrow>
                  andThen (saveLastDate e ?dir (dataHora (last (d # ds))) w3)
                    (\<lambda>saved. writeBatch e cfg st ?dir d (last (d # ds)) (d # ds)))
          else writeBatch e cfg st ?dir firstDcp (last dcps) dcps w2)
         (\<lambda>u w4. (w4, Ok dcps)))) = requests w2"
    for files :: "string list" and w2
    by (cases "files = []")
       (simp_all add: fst_andThen_return [where c = "\<lambda>u. Ok dcps"] tail requests_writeBatch
          del: last.simps append_Cons)
  have "requests (fst (andThen (stationFiles e ?dir (last dcps) w) (\<lambda>filesInDirectory w2.
         andThen
         (if filesInDirectory \<noteq> [] then
            andThen (getLastDate ?dir w2) (\<lambda>lastDate w3.
              case dcpsToSave e dcps lastDate of
                [] \<Rightarrow> (w3, Ok ())
              | d # ds \<Rightarrow>
                  andThen (saveLastDate e ?dir (dataHora (last (d # ds))) w3)
                    (\<lambda>saved. writeBatch e cfg st ?dir d (last (d # ds)) (d # ds)))
          else writeBatch e cfg st ?dir firstDcp (last dcps) dcps w2)
         (\<lambda>u w4. (w4, Ok dcps))))) = requests w"
    by (rule requests_andThen) (simp_all only: requests_stationFiles inner)
  then show ?thesis
    unfolding saveDCPs_def Let_def Cons [symmetric] by (simp add: Cons)
qed

lemma requests_getDataStation: "requests (fst (getDataStation cfg e st w)) = Suc (requests w)"
  unfolding getDataStation_def
  by (rule requests_andThen)
     (simp_all add: requests_saveDCPs getDCPs_def Let_def split: sum.splits)

lemma requests_getDataLoop:
  assumes "snd (getDataLoop cfg e sts out w) = Ok res"
  shows "requests (fst (getDataLoop cfg e sts out w)) = requests w + length sts"
  using assms
proof (induction sts arbitrary: out w)
  case Nil
  then show ?case by simp
next
  case (Cons st sts)
  obtain w' x where r: "getDataStation cfg e st w = (w', x)"
    by (cases "getDataStation cfg e st w")
  have n: "requests w' = Suc (requests w)"
    using requests_getDataStation [of cfg e st w] r by simp
  show ?case
  proof (cases x)
    case (Ok dcps)
    with r Cons.prems Cons.IH [of "out @ [dcps]" w'] n show ?thesis by simp
  next
    case (Threw er)
    let ?w2 = "case er of
                 DisabledDCP message \<Rightarrow>
                   consoleLog (''Could not retrieve data for station with code: '' @ message) w'
               | _ \<Rightarrow> w'"
    have n2: "requests ?w2 = Suc (requests w)"
      using n by (cases er) simp_all
    from r Threw Cons.prems Cons.IH [of out ?w2] n2 show ?thesis by simp
  next
    case (Crashed er)
    with r Cons.prems show ?thesis by simp
  qed
qed

lemma requests_getData:
  assumes "snd (getData cfg e w) = Ok res"
  shows "requests (fst (getData cfg e w)) = requests w + length (stations cfg)"
proof (cases "disk w (dataDir cfg) = None")
  case False
  then have "getData cfg e w = getDataLoop cfg e (stations cfg) [] w"
    by (auto simp: getData_def andThen_def)
  with assms requests_getDataLoop [of cfg e "stations cfg" "[]" w res] show ?thesis by simp
next
  case True
  let ?w1 = "setFiles (dataDir cfg) [] (consoleLog (dirWarning (dataDir cfg)) w)"
  have nf: "\<not> failMkdir e (dataDir cfg)"
    using assms True by (auto simp: getData_def andThen_def mkdirSync_def)
  have "getData cfg e w = getDataLoop cfg e (stations cfg) [] ?w1"
    using True nf by (simp add: getData_def andThen_def mkdirSync_def)
  with assms requests_getDataLoop [of cfg e "stations cfg" "[]" ?w1 res] show ?thesis by simp
qed

text \<open>
  Claim C4, amended. The remote endpoint is requested once for every configured station:
  each step of the loop sends its own request and matches the station against the payload
  of that request, so a cycle that returns has sent as many requests as there are
  configured stations.
\<close>

theorem C4_one_request_per_station:
  "requests (fst (getDataStation cfg e st w)) = Suc (requests w)
   \<and> snd (getDCPs e st w)
       = (case remote e (requests w) of
            Inl er \<Rightarrow> Threw er
          | Inr payload \<Rightarrow>
              if matching st payload = [] then Threw (DisabledDCP (codEstacao st))
              else Ok (matching st payload))
   \<and> (\<forall>res. snd (getData cfg e w) = Ok res \<longrightarrow>
         requests (fst (getData cfg e w)) = requests w + length (stations cfg))"
  using requests_getDataStation [of cfg e st w] requests_getData [of cfg e w]
  by (auto simp: getDCPs_def matching_def Let_def split: sum.splits)

theorem C4_one_request_per_station_witness:
  "snd (getData twoStations bothEnv emptyWorld) = Ok [[r1, r2, r3], [q1]]
   \<and> requests (fst (getData twoStations bothEnv emptyWorld)) = requests emptyWorld + 2
   \<and> length (stations twoStations) = 2"
proof -
  have a: "snd (getData twoStations bothEnv emptyWorld) = Ok [[r1, r2, r3], [q1]]"
    by (simp add: model_defs sample_defs stS2_def q1_def twoStations_def bothEnv_def)
  have b: "length (stations twoStations) = 2"
    by (simp add: twoStations_def)
  from C4_one_request_per_station [of twoStations bothEnv stS1 emptyWorld] a b
  show ?thesis by simp
qed

text \<open>
  The claim as written fails: a cycle over two stations sends two requests.
\<close>

theorem C4_counterexample:
  "length (stations twoStations) = 2
   \<and> requests emptyWorld = 0
   \<and> snd (getData twoStations bothEnv emptyWorld) = Ok [[r1, r2, r3], [q1]]
   \<and> requests (fst (getData twoStations bothEnv emptyWorld)) = 2"
  by (simp add: model_defs sample_defs stS2_def q1_def twoStations_def bothEnv_def)

section \<open>Two cycles on the same payload\<close>

lemma settled_same_disk:
  "disk w' (stationDir cfg st) = disk w (stationDir cfg st) \<Longrightarrow>
   settled e cfg payload w' st = settled e cfg payload w st"
  by (simp add: settled_def watermark_def fileContent_def)

lemma wellFormed_same_disk:
  "disk w' (stationDir cfg st) = disk w (stationDir cfg st) \<Longrightarrow>
   wellFormed e cfg w' st = wellFormed e cfg w st"
  by (simp add: wellFormed_def watermark_def fileContent_def)

lemma station_eq: "(st :: station) = st' \<longleftrightarrow> codEstacao st = codEstacao st'"
  by (cases st, cases st') simp

lemma dcpsToSave_settled:
  assumes "parseDate e lastDate = Some wm"
    and "\<forall>d \<in> set dcps. \<exists>t. timeOf e d = Some t \<and> t \<le> wm"
  shows "dcpsToSave e dcps lastDate = []"
  using assms
  by (auto simp: dcpsToSave_filter filter_empty_conv timeOf_def compareDates_valid)

lemma settled_noop:
  assumes nf: "noFaults e"
    and rem: "remote e (requests w) = Inr payload"
    and st: "settled e cfg payload w st"
  shows "getDataStation cfg e st w
     = (w\<lparr>requests := Suc (requests w)\<rparr>,
        if matching st payload = [] then Threw (DisabledDCP (codEstacao st))
        else Ok (matching st payload))"
proof (cases "matching st payload = []")
  case True
  then show ?thesis
    by (simp add: getDataStation_def getDCPs_payload [OF rem] andThen_def)
next
  case False
  let ?dcps = "matching st payload"
  let ?w1 = "w\<lparr>requests := Suc (requests w)\<rparr>"
  from st False obtain wm where wm: "watermark e cfg st w = Some wm"
    and le: "\<forall>d \<in> set ?dcps. \<exists>t. timeOf e d = Some t \<and> t \<le> wm"
    by (auto simp: settled_def)
  from wm obtain ls lastDate where ex: "disk w (stationDir cfg st) = Some ls"
    and m: "map_of ls ''lastDate.dat'' = Some lastDate" and p: "parseDate e lastDate = Some wm"
    by (auto simp: watermark_def fileContent_def split: option.splits)
  have code: "codestacao (last ?dcps) = codEstacao st"
    using False by (rule last_matching)
  have ex1: "disk ?w1 (stationDir cfg st) = Some ls" using ex by simp
  have wr: "\<And>name. \<not> failWrite e (stationDir cfg st) name"
    using nf by (simp add: noFaults_def)
  have none: "dcpsToSave e ?dcps lastDate = []"
    using p le by (rule dcpsToSave_settled)
  have "saveDCPs cfg e st ?dcps ?w1 = (?w1, Ok ?dcps)"
    using saveDCPs_existing [OF False code ex1 m wr] none by simp
  with False show ?thesis
    by (simp add: getDataStation_def getDCPs_payload [OF rem] andThen_def)
qed

lemma sorted_wrt_last:
  assumes "sorted_wrt R xs" "x \<in> set xs"
  shows "x = last xs \<or> R x (last xs)"
  using assms
proof (induction xs)
  case Nil
  then show ?case by simp
next
  case (Cons y ys)
  show ?case
  proof (cases "ys = []")
    case True
    with Cons.prems show ?thesis by simp
  next
    case False
    then have l: "last (y # ys) = last ys" by simp
    have lin: "last ys \<in> set ys" using False by simp
    show ?thesis
    proof (cases "x = y")
      case True
      with Cons.prems(1) lin l show ?thesis by auto
    next
      case False
      with Cons.prems have "x \<in> set ys" "sorted_wrt R ys" by auto
      with Cons.IH l show ?thesis by auto
    qed
  qed
qed

lemma ascending_last:
  assumes asc: "ascending e ds" and mem: "d \<in> set ds"
    and valid: "\<forall>d \<in> set ds. timeOf e d \<noteq> None"
  shows "\<exists>t tl. timeOf e d = Some t \<and> timeOf e (last ds) = Some tl \<and> t \<le> tl"
proof -
  from asc mem have "d = last ds \<or> notAfter e d (last ds)"
    unfolding ascending_def by (rule sorted_wrt_last)
  then show ?thesis
  proof
    assume "d = last ds"
    with valid mem show ?thesis by auto
  next
    assume "notAfter e d (last ds)"
    then show ?thesis by (auto simp: notAfter_def split: option.splits)
  qed
qed

lemma last_filter:
  assumes "xs \<noteq> []" "P (last xs)"
  shows "last (filter P xs) = last xs"
  using assms by (induction xs) (auto simp: filter_empty_conv)

lemma map_of_batchFiles_lastDate:
  "map_of (batchFiles e cfg st firstDcp lastDcp batch ls) ''lastDate.dat'' = map_of ls ''lastDate.dat''"
  using dataFile_not_lastDate [of e lastDcp]
  by (simp add: batchFiles_def AList.update_conv')

lemma ascending_settles:
  assumes ne: "dcps \<noteq> []" and asc: "ascending e dcps"
    and valid: "\<forall>d \<in> set dcps. timeOf e d \<noteq> None"
  shows "\<exists>tl. parseDate e (dataHora (last dcps)) = Some tl
       \<and> (\<forall>d \<in> set dcps. \<exists>t. timeOf e d = Some t \<and> t \<le> tl)"
proof -
  have "last dcps \<in> set dcps" using ne by simp
  with valid obtain tl where tl: "timeOf e (last dcps) = Some tl" by auto
  have "\<exists>t. timeOf e d = Some t \<and> t \<le> tl" if "d \<in> set dcps" for d
    using ascending_last [OF asc that valid] tl by auto
  with tl show ?thesis by (auto simp: timeOf_def)
qed

lemma step_settles:
  assumes nf: "noFaults e"
    and rem: "remote e (requests w) = Inr payload"
    and valid: "\<forall>d \<in> set payload. timeOf e d \<noteq> None"
    and asc: "ascending e (matching st payload)"
    and wf: "wellFormed e cfg w st"
  shows "settled e cfg payload (fst (getDataStation cfg e st w)) st
       \<and> snd (getDataStation cfg e st w)
           = (if matching st payload = [] then Threw (DisabledDCP (codEstacao st))
              else Ok (matching st payload))"
proof (cases "matching st payload = []")
  case True
  then show ?thesis
    by (simp add: getDataStation_def getDCPs_payload [OF rem] andThen_def settled_def)
next
  case False
  let ?dcps = "matching st payload"
  let ?dir = "stationDir cfg st"
  let ?w1 = "w\<lparr>requests := Suc (requests w)\<rparr>"
  have g: "getDataStation cfg e st w = saveDCPs cfg e st ?dcps ?w1"
    using False by (simp add: getDataStation_def getDCPs_payload [OF rem] andThen_def)
  have code: "codestacao (last ?dcps) = codEstacao st"
    using False by (rule last_matching)
  have wr: "\<And>name. \<not> failWrite e ?dir name"
    using nf by (simp add: noFaults_def)
  have mk: "\<not> failMkdir e ?dir"
    using nf by (simp add: noFaults_def)
  have valid': "\<forall>d \<in> set ?dcps. timeOf e d \<noteq> None"
    using valid by (simp add: matching_def)
  from ascending_settles [OF False asc valid'] obtain tl where
    tl: "parseDate e (dataHora (last ?dcps)) = Some tl"
    and le: "\<forall>d \<in> set ?dcps. \<exists>t. timeOf e d = Some t \<and> t \<le> tl"
    by blast
  show ?thesis
  proof (cases "disk w ?dir")
    case None
    then have fresh: "disk ?w1 ?dir = None" by simp
    have "watermark e cfg st (fst (saveDCPs cfg e st ?dcps ?w1)) = Some tl"
      by (simp add: saveDCPs_fresh [OF False code fresh mk wr] watermark_def fileContent_def tl)
    with le False show ?thesis
      by (auto simp: g settled_def saveDCPs_fresh [OF False code fresh mk wr])
  next
    case (Some ls)
    with wf obtain lastDate wm where m: "map_of ls ''lastDate.dat'' = Some lastDate"
      and p: "parseDate e lastDate = Some wm"
      by (auto simp: wellFormed_def watermark_def fileContent_def split: option.splits)
    have ex1: "disk ?w1 ?dir = Some ls" using Some by simp
    note r = saveDCPs_existing [OF False code ex1 m wr]
    show ?thesis
    proof (cases "dcpsToSave e ?dcps lastDate")
      case Nil
      have old: "\<forall>d \<in> set ?dcps. \<exists>t. timeOf e d = Some t \<and> t \<le> wm"
      proof
        fix d assume d: "d \<in> set ?dcps"
        with valid' obtain t where t: "timeOf e d = Some t" by auto
        from Nil d have "\<not> compareDates e (dataHora d) lastDate"
          by (auto simp: dcpsToSave_filter filter_empty_conv)
        with p t have "t \<le> wm" by (simp add: compareDates_valid timeOf_def)
        with t show "\<exists>t. timeOf e d = Some t \<and> t \<le> wm" by simp
      qed
      have "watermark e cfg st ?w1 = Some wm"
        using Some m p by (simp add: watermark_def fileContent_def)
      with old Nil False show ?thesis
        by (auto simp: g r settled_def)
    next
      case (Cons x xs)
      let ?ts = "dcpsToSave e ?dcps lastDate"
      have xin: "x \<in> set ?dcps" and xnew: "compareDates e (dataHora x) lastDate"
        using Cons by (auto simp: dcpsToSave_filter filter_eq_Cons_iff)
      from le xin obtain tx where tx: "timeOf e x = Some tx" "tx \<le> tl" by auto
      have "wm < tx" using xnew p tx(1) by (simp add: compareDates_valid timeOf_def)
      with tx(2) have "compareDates e (dataHora (last ?dcps)) lastDate"
        using p tl by (simp add: compareDates_valid)
      with False have "last ?ts = last ?dcps"
        by (simp add: dcpsToSave_filter last_filter)
      with Cons have lastx: "last (x # xs) = last ?dcps" by simp
      have "watermark e cfg st (fst (saveDCPs cfg e st ?dcps ?w1)) = Some tl"
        using Cons
        by (simp add: r watermark_def fileContent_def map_of_batchFiles_lastDate
            AList.update_conv' lastx tl del: last.simps)
      with le False Cons show ?thesis
        by (auto simp: g r settled_def simp del: last.simps)
    qed
  qed
qed

lemma step_preserves_settled:
  assumes nf: "noFaults e"
    and rem: "remote e (requests w) = Inr payload"
    and st: "settled e cfg payload w st"
  shows "settled e cfg payload (fst (getDataStation cfg e st' w)) st"
proof -
  have "disk (fst (getDataStation cfg e st' w)) (stationDir cfg st) = disk w (stationDir cfg st)"
  proof (cases "st' = st")
    case True
    with settled_noop [OF nf rem st] show ?thesis by simp
  next
    case False
    then have "stationDir cfg st' \<noteq> stationDir cfg st"
      by (simp add: stationDir_inject station_eq)
    with onlyDir_getDataStation [of cfg st' w e] show ?thesis
      by (auto simp: onlyDir_def)
  qed
  then have "settled e cfg payload (fst (getDataStation cfg e st' w)) st = settled e cfg payload w st"
    by (rule settled_same_disk)
  with st show ?thesis by simp
qed

lemma settled_wellFormed:
  "settled e cfg payload w st \<Longrightarrow> matching st payload \<noteq> [] \<Longrightarrow> wellFormed e cfg w st"
  by (auto simp: settled_def wellFormed_def)

lemma step_preserves_wellFormed:
  assumes nf: "noFaults e"
    and rem: "remote e (requests w) = Inr payload"
    and valid: "\<forall>d \<in> set payload. timeOf e d \<noteq> None"
    and asc: "ascending e (matching st' payload)"
    and wf': "wellFormed e cfg w st'"
    and wf: "wellFormed e cfg w st"
  shows "wellFormed e cfg (fst (getDataStation cfg e st' w)) st"
proof (cases "st' = st \<and> matching st payload \<noteq> []")
  case True
  with step_settles [OF nf rem valid asc wf'] show ?thesis
    by (auto intro: settled_wellFormed)
next
  case False
  have "disk (fst (getDataStation cfg e st' w)) (stationDir cfg st) = disk w (stationDir cfg st)"
  proof (cases "st' = st")
    case True
    with False have "settled e cfg payload w st'" by (simp add: settled_def)
    from settled_noop [OF nf rem this] True show ?thesis by simp
  next
    case False
    then have "stationDir cfg st' \<noteq> stationDir cfg st"
      by (simp add: stationDir_inject station_eq)
    with onlyDir_getDataStation [of cfg st' w e] show ?thesis
      by (auto simp: onlyDir_def)
  qed
  then have "wellFormed e cfg (fst (getDataStation cfg e st' w)) st = wellFormed e cfg w st"
    by (rule wellFormed_same_disk)
  with wf show ?thesis by simp
qed

lemma first_cycle_loop:
  assumes nf: "noFaults e"
    and rem: "\<forall>n. remote e n = Inr payload"
    and valid: "\<forall>d \<in> set payload. timeOf e d \<noteq> None"
    and asc: "\<forall>st \<in> A. ascending e (matching st payload)"
    and sub: "set sts \<subseteq> A"
    and wf: "\<forall>st \<in> A. wellFormed e cfg w st"
  shows "snd (getDataLoop cfg e sts out w)
           = Ok (out @ map (\<lambda>st. matching st payload) (filter (\<lambda>st. matching st payload \<noteq> []) sts))
       \<and> (\<forall>st \<in> A. wellFormed e cfg (fst (getDataLoop cfg e sts out w)) st)
       \<and> (\<forall>st \<in> set sts. settled e cfg payload (fst (getDataLoop cfg e sts out w)) st)
       \<and> (\<forall>st. settled e cfg payload w st \<longrightarrow>
             settled e cfg payload (fst (getDataLoop cfg e sts out w)) st)"
  using sub wf
proof (induction sts arbitrary: out w)
  case Nil
  then show ?case by simp
next
  case (Cons st sts)
  have r: "remote e (requests w) = Inr payload" using rem by simp
  have stA: "st \<in> A" and sub': "set sts \<subseteq> A" using Cons.prems(1) by auto
  have ascst: "ascending e (matching st payload)" using asc stA by simp
  have wfst: "wellFormed e cfg w st" using Cons.prems(2) stA by simp
  let ?w1 = "fst (getDataStation cfg e st w)"
  note step = step_settles [OF nf r valid ascst wfst]
  let ?w2 = "if matching st payload = []
             then consoleLog (''Could not retrieve data for station with code: '' @ codEstacao st) ?w1
             else ?w1"
  have d2: "disk ?w2 = disk ?w1" by simp
  have wf2: "\<forall>s \<in> A. wellFormed e cfg ?w2 s"
  proof
    fix s assume "s \<in> A"
    then have "wellFormed e cfg w s" using Cons.prems(2) by simp
    from step_preserves_wellFormed [OF nf r valid ascst wfst this]
    have "wellFormed e cfg ?w1 s" .
    moreover have "wellFormed e cfg ?w2 s = wellFormed e cfg ?w1 s"
      by (rule wellFormed_same_disk) simp
    ultimately show "wellFormed e cfg ?w2 s" by simp
  qed
  have keep: "settled e cfg payload ?w2 s" if "settled e cfg payload ?w1 s" for s
  proof -
    have "settled e cfg payload ?w2 s = settled e cfg payload ?w1 s"
      by (rule settled_same_disk) simp
    with that show ?thesis by simp
  qed
  have loop: "getDataLoop cfg e (st # sts) out w
      = getDataLoop cfg e sts
          (if matching st payload = [] then out else out @ [matching st payload]) ?w2"
    using step by (cases "getDataStation cfg e st w") (auto simp del: append_Cons)
  note ih = Cons.IH [OF sub' wf2,
      of "if matching st payload = [] then out else out @ [matching st payload]"]
  have a: "snd (getDataLoop cfg e (st # sts) out w)
      = Ok (out @ map (\<lambda>st. matching st payload)
                    (filter (\<lambda>st. matching st payload \<noteq> []) (st # sts)))"
    using ih by (simp add: loop del: getDataLoop.simps)
  have b: "\<forall>s \<in> A. wellFormed e cfg (fst (getDataLoop cfg e (st # sts) out w)) s"
    using ih by (simp add: loop del: getDataLoop.simps)
  have c: "\<forall>s \<in> set (st # sts). settled e cfg payload (fst (getDataLoop cfg e (st # sts) out w)) s"
  proof
    fix s assume "s \<in> set (st # sts)"
    then consider "s = st" | "s \<in> set sts" by auto
    then show "settled e cfg payload (fst (getDataLoop cfg e (st # sts) out w)) s"
    proof cases
      case 1
      have "settled e cfg payload ?w2 st" using step by (intro keep) simp
      with ih 1 show ?thesis by (simp add: loop del: getDataLoop.simps)
    next
      case 2
      with ih show ?thesis by (simp add: loop del: getDataLoop.simps)
    qed
  qed
  have d: "\<forall>s. settled e cfg payload w s \<longrightarrow>
             settled e cfg payload (fst (getDataLoop cfg e (st # sts) out w)) s"
  proof (intro allI impI)
    fix s assume "settled e cfg payload w s"
    from step_preserves_settled [OF nf r this] have "settled e cfg payload ?w1 s" .
    then have "settled e cfg payload ?w2 s" by (rule keep)
    with ih show "settled e cfg payload (fst (getDataLoop cfg e (st # sts) out w)) s"
      by (simp add: loop del: getDataLoop.simps)
  qed
  from a b c d show ?case by blast
qed

lemma settled_loop:
  assumes nf: "noFaults e"
    and rem: "\<forall>n. remote e n = Inr payload"
    and st: "\<forall>st \<in> set sts. settled e cfg payload w st"
  shows "snd (getDataLoop cfg e sts out w)
           = Ok (out @ map (\<lambda>st. matching st payload) (filter (\<lambda>st. matching st payload \<noteq> []) sts))
       \<and> disk (fst (getDataLoop cfg e sts out w)) = disk w"
  using st
proof (induction sts arbitrary: out w)
  case Nil
  then show ?case by simp
next
  case (Cons s sts)
  have r: "remote e (requests w) = Inr payload" using rem by simp
  have ss: "settled e cfg payload w s" using Cons.prems by simp
  note step = settled_noop [OF nf r ss]
  let ?w1 = "w\<lparr>requests := Suc (requests w)\<rparr>"
  let ?w2 = "if matching s payload = []
             then consoleLog (''Could not retrieve data for station with code: '' @ codEstacao s) ?w1
             else ?w1"
  have d2: "disk ?w2 = disk w" by simp
  have rest: "\<forall>st \<in> set sts. settled e cfg payload ?w2 st"
  proof
    fix st assume "st \<in> set sts"
    then have "settled e cfg payload w st" using Cons.prems by simp
    moreover have "settled e cfg payload ?w2 st = settled e cfg payload w st"
      by (rule settled_same_disk) simp
    ultimately show "settled e cfg payload ?w2 st" by simp
  qed
  have loop: "getDataLoop cfg e (s # sts) out w
      = getDataLoop cfg e sts
          (if matching s payload = [] then out else out @ [matching s payload]) ?w2"
    by (simp add: step del: append_Cons)
  from Cons.IH [OF rest, of "if matching s payload = [] then out else out @ [matching s payload]"] d2
  show ?case by (simp add: loop del: getDataLoop.simps)
qed

lemma getData_existing_dataDir:
  assumes "disk w (dataDir cfg) \<noteq> None"
  shows "getData cfg e w = getDataLoop cfg e (stations cfg) [] w"
  using assms by (auto simp: getData_def andThen_def)

lemma getData_missing_dataDir:
  assumes "disk w (dataDir cfg) = None" "\<not> failMkdir e (dataDir cfg)"
  shows "getData cfg e w
     = getDataLoop cfg e (stations cfg) []
         (setFiles (dataDir cfg) [] (consoleLog (dirWarning (dataDir cfg)) w))"
  using assms by (simp add: getData_def andThen_def mkdirSync_def)

lemma dataDir_stays:
  assumes "disk w (dataDir cfg) \<noteq> None"
  shows "disk (fst (getDataLoop cfg e sts out w)) (dataDir cfg) \<noteq> None"
proof -
  define P where "P = (\<lambda>w :: world. disk w (dataDir cfg) \<noteq> None)"
  have step: "P (fst (getDataStation cfg e st w'))" if "P w'" for st w'
    using that onlyDir_getDataStation [of cfg st w' e] stationDir_not_dataDir [of cfg st]
    by (auto simp: P_def onlyDir_def)
  have log: "P (consoleLog m w')" if "P w'" for m w'
    using that by (simp add: P_def)
  have init: "P w" using assms by (simp add: P_def)
  have "P (fst (getDataLoop cfg e sts out w))"
    by (rule getDataLoop_invariant [of P cfg e w sts out]) (auto intro: step log init)
  then show ?thesis by (simp add: P_def)
qed

lemma first_cycle:
  assumes nf: "noFaults e"
    and rem: "\<forall>n. remote e n = Inr payload"
    and valid: "\<forall>d \<in> set payload. timeOf e d \<noteq> None"
    and asc: "\<forall>st \<in> set (stations cfg). ascending e (matching st payload)"
    and wf: "\<forall>st \<in> set (stations cfg). wellFormed e cfg w st"
  shows "snd (getData cfg e w) = Ok (batches cfg payload)
       \<and> (\<forall>st \<in> set (stations cfg). settled e cfg payload (fst (getData cfg e w)) st)
       \<and> disk (fst (getData cfg e w)) (dataDir cfg) \<noteq> None"
proof -
  let ?w0 = "if disk w (dataDir cfg) = None
             then setFiles (dataDir cfg) [] (consoleLog (dirWarning (dataDir cfg)) w) else w"
  have mk: "\<not> failMkdir e (dataDir cfg)" using nf by (simp add: noFaults_def)
  have g: "getData cfg e w = getDataLoop cfg e (stations cfg) [] ?w0"
  proof (cases "disk w (dataDir cfg) = None")
    case True
    with getData_missing_dataDir [OF True mk] show ?thesis by simp
  next
    case False
    with getData_existing_dataDir [OF False] show ?thesis by auto
  qed
  have d0: "disk ?w0 (dataDir cfg) \<noteq> None" by simp
  have wf0: "\<forall>st \<in> set (stations cfg). wellFormed e cfg ?w0 st"
  proof
    fix st assume "st \<in> set (stations cfg)"
    then have "wellFormed e cfg w st" using wf by simp
    moreover have "wellFormed e cfg ?w0 st = wellFormed e cfg w st"
      by (rule wellFormed_same_disk) (simp add: stationDir_not_dataDir)
    ultimately show "wellFormed e cfg ?w0 st" by simp
  qed
  from first_cycle_loop [OF nf rem valid asc subset_refl wf0, of "[]"]
    dataDir_stays [OF d0, of e "stations cfg" "[]"]
  show ?thesis by (simp add: g batches_def)
qed

lemma settled_cycle:
  assumes nf: "noFaults e"
    and rem: "\<forall>n. remote e n = Inr payload"
    and st: "\<forall>st \<in> set (stations cfg). settled e cfg payload w st"
    and dd: "disk w (dataDir cfg) \<noteq> None"
  shows "snd (getData cfg e w) = Ok (batches cfg payload) \<and> disk (fst (getData cfg e w)) = disk w"
  using settled_loop [OF nf rem st, of "[]"]
  by (simp add: getData_existing_dataDir [OF dd] batches_def)

text \<open>
  Claim C6. With no failing directory creation or write, a remote service that answers
  every request with the same payload, readings whose timestamps are dates and arrive per
  station in non-decreasing order, and station directories that are absent or hold a
  watermark: both cycles return the same batches, and the second cycle leaves every
  directory as the first one left it, so no output file gains a line and no watermark
  changes.
\<close>

theorem C6_second_cycle_changes_nothing:
  assumes "noFaults e"
    and "\<forall>n. remote e n = Inr payload"
    and "\<forall>d \<in> set payload. timeOf e d \<noteq> None"
    and "\<forall>st \<in> set (stations cfg). ascending e (matching st payload)"
    and "\<forall>st \<in> set (stations cfg). wellFormed e cfg w st"
  shows "snd (getData cfg e w) = Ok (batches cfg payload)
       \<and> snd (getData cfg e (fst (getData cfg e w))) = Ok (batches cfg payload)
       \<and> disk (fst (getData cfg e (fst (getData cfg e w)))) = disk (fst (getData cfg e w))"
proof -
  note first = first_cycle [OF assms]
  from first have st: "\<forall>st \<in> set (stations cfg). settled e cfg payload (fst (getData cfg e w)) st"
    and dd: "disk (fst (getData cfg e w)) (dataDir cfg) \<noteq> None"
    by simp_all
  from settled_cycle [OF assms(1,2) st dd] first show ?thesis by simp
qed

theorem C6_second_cycle_changes_nothing_witness:
  "noFaults sampleEnv
   \<and> (\<forall>n. remote sampleEnv n = Inr [r1, r2, r3])
   \<and> list_all (\<lambda>d. timeOf sampleEnv d \<noteq> None) [r1, r2, r3]
   \<and> list_all (\<lambda>st. ascending sampleEnv (matching st [r1, r2, r3])) (stations sampleConfig)
   \<and> list_all (wellFormed sampleEnv sampleConfig emptyWorld) (stations sampleConfig)
   \<and> snd (getData sampleConfig sampleEnv emptyWorld) = Ok [[r1, r2, r3]]
   \<and> snd (getData sampleConfig sampleEnv (fst (getData sampleConfig sampleEnv emptyWorld)))
       = Ok [[r1, r2, r3]]
   \<and> disk (fst (getData sampleConfig sampleEnv (fst (getData sampleConfig sampleEnv emptyWorld))))
       = disk (fst (getData sampleConfig sampleEnv emptyWorld))
   \<and> disk (fst (getData sampleConfig sampleEnv emptyWorld)) ''/data/S1''
       = Some [(''lastDate.dat'', ''2019-07-22 10:20:00.0''),
               (''S1_20190722_102000.dat'',
                ''TIMESTAMP;chuva'' @ CRLF @ ''07/22/2019 10:00:00;0.0'' @ CRLF
                  @ ''07/22/2019 10:10:00;0.2'' @ CRLF @ ''07/22/2019 10:20:00;0.4'' @ CRLF)]"
proof -
  have h1: "noFaults sampleEnv"
    by (simp add: noFaults_def sampleEnv_def)
  have h2: "\<forall>n. remote sampleEnv n = Inr [r1, r2, r3]"
    by (simp add: sampleEnv_def)
  have h3: "\<forall>d \<in> set [r1, r2, r3]. timeOf sampleEnv d \<noteq> None"
    by (simp add: timeOf_def sample_defs)
  have h4: "\<forall>st \<in> set (stations sampleConfig). ascending sampleEnv (matching st [r1, r2, r3])"
    by (simp add: ascending_def notAfter_def timeOf_def matching_def sample_defs)
  have h5: "\<forall>st \<in> set (stations sampleConfig). wellFormed sampleEnv sampleConfig emptyWorld st"
    by (simp add: wellFormed_def emptyWorld_def)
  have b: "batches sampleConfig [r1, r2, r3] = [[r1, r2, r3]]"
    by (simp add: batches_def matching_def sample_defs)
  have d: "disk (fst (getData sampleConfig sampleEnv emptyWorld)) ''/data/S1''
       = Some [(''lastDate.dat'', ''2019-07-22 10:20:00.0''),
               (''S1_20190722_102000.dat'',
                ''TIMESTAMP;chuva'' @ CRLF @ ''07/22/2019 10:00:00;0.0'' @ CRLF
                  @ ''07/22/2019 10:10:00;0.2'' @ CRLF @ ''07/22/2019 10:20:00;0.4'' @ CRLF)]"
    by (simp add: model_defs sample_defs)
  from C6_second_cycle_changes_nothing [OF h1 h2 h3 h4 h5] h1 h2 h3 h4 h5 d
  show ?thesis by (simp add: b list_all_iff)
qed

section \<open>The wrapper\<close>

lemma newCemaden_ok: "dataDir cfg \<noteq> [] \<Longrightarrow> url cfg \<noteq> [] \<Longrightarrow> newCemaden cfg = Inr cfg"
  by (simp add: newCemaden_def)

text \<open>
  Claim C9, amended. When the cycle returns, the wrapper prints the length of the list
  \<open>getData\<close> returned and exits with code 0. That list holds one batch (all readings
  fetched for the station, saved or not) per station whose step ended without an exception:
  with no faults, it is the number of configured stations that have readings in the
  payload, not the number of records written. When \<open>getData\<close> rejects, the wrapper prints
  the error and exits with code 1.
\<close>

theorem C9_prints_number_of_batches:
  "(dataDir cfg \<noteq> [] \<and> url cfg \<noteq> [] \<and> snd (getData cfg e w) = Ok res \<longrightarrow>
      example_cemaden cfg e w
        = (consoleLog (''Done. Saved '' @ showNat (length res) @ '' DCPs in '' @ dataDir cfg)
             (fst (getData cfg e w)), 0))
   \<and> (dataDir cfg \<noteq> [] \<and> url cfg \<noteq> [] \<and> snd (getData cfg e w) = Threw er \<longrightarrow>
      example_cemaden cfg e w
        = (consoleLog (''Got error while retrieving DCPS. '' @ errToString er)
             (fst (getData cfg e w)), 1))
   \<and> (noFaults e \<and> (\<forall>n. remote e n = Inr payload)
        \<and> (\<forall>d \<in> set payload. timeOf e d \<noteq> None)
        \<and> (\<forall>st \<in> set (stations cfg). ascending e (matching st payload))
        \<and> (\<forall>st \<in> set (stations cfg). wellFormed e cfg w st) \<longrightarrow>
      snd (getData cfg e w) = Ok (batches cfg payload)
      \<and> length (batches cfg payload)
          = length (filter (\<lambda>st. matching st payload \<noteq> []) (stations cfg)))"
proof (intro conjI impI)
  assume a: "dataDir cfg \<noteq> [] \<and> url cfg \<noteq> [] \<and> snd (getData cfg e w) = Ok res"
  then show "example_cemaden cfg e w
        = (consoleLog (''Done. Saved '' @ showNat (length res) @ '' DCPs in '' @ dataDir cfg)
             (fst (getData cfg e w)), 0)"
    by (cases "getData cfg e w") (simp add: example_cemaden_def newCemaden_ok del: append_Cons)
next
  assume a: "dataDir cfg \<noteq> [] \<and> url cfg \<noteq> [] \<and> snd (getData cfg e w) = Threw er"
  then show "example_cemaden cfg e w
        = (consoleLog (''Got error while retrieving DCPS. '' @ errToString er)
             (fst (getData cfg e w)), 1)"
    by (cases "getData cfg e w") (simp add: example_cemaden_def newCemaden_ok del: append_Cons)
next
  assume a: "noFaults e \<and> (\<forall>n. remote e n = Inr payload)
        \<and> (\<forall>d \<in> set payload. timeOf e d \<noteq> None)
        \<and> (\<forall>st \<in> set (stations cfg). ascending e (matching st payload))
        \<and> (\<forall>st \<in> set (stations cfg). wellFormed e cfg w st)"
  then show "snd (getData cfg e w) = Ok (batches cfg payload)"
    using first_cycle [of e payload cfg w] by blast
next
  show "length (batches cfg payload)
          = length (filter (\<lambda>st. matching st payload \<noteq> []) (stations cfg))"
    by (simp add: batches_def)
qed

theorem C9_prints_number_of_batches_witness:
  "dataDir sampleConfig \<noteq> [] \<and> url sampleConfig \<noteq> []
   \<and> snd (getData sampleConfig sampleEnv emptyWorld) = Ok [[r1, r2, r3]]
   \<and> example_cemaden sampleConfig sampleEnv emptyWorld
       = (consoleLog ''Done. Saved 1 DCPs in /data'' (fst (getData sampleConfig sampleEnv emptyWorld)), 0)
   \<and> snd (getData sampleConfig readOnlyEnv emptyWorld) = Threw (FsError ''mkdir /data'')
   \<and> example_cemaden sampleConfig readOnlyEnv emptyWorld
       = (consoleLog ''Got error while retrieving DCPS. Error: mkdir /data''
            (fst (getData sampleConfig readOnlyEnv emptyWorld)), 1)
   \<and> noFaults sampleEnv
   \<and> (\<forall>n. remote sampleEnv n = Inr [r1, r2, r3])
   \<and> list_all (\<lambda>d. timeOf sampleEnv d \<noteq> None) [r1, r2, r3]
   \<and> list_all (\<lambda>st. ascending sampleEnv (matching st [r1, r2, r3])) (stations sampleConfig)
   \<and> list_all (wellFormed sampleEnv sampleConfig emptyWorld) (stations sampleConfig)
   \<and> length (batches sampleConfig [r1, r2, r3]) = 1"
proof -
  have c: "dataDir sampleConfig \<noteq> []" "url sampleConfig \<noteq> []" "dataDir sampleConfig = ''/data''"
    by (simp_all add: sampleConfig_def)
  have ok: "snd (getData sampleConfig sampleEnv emptyWorld) = Ok [[r1, r2, r3]]"
    by (simp add: model_defs sample_defs)
  have ko: "snd (getData sampleConfig readOnlyEnv emptyWorld) = Threw (FsError ''mkdir /data'')"
    by (simp add: model_defs sample_defs readOnlyEnv_def)
  have n: "showNat (length [[r1, r2, r3]]) = ''1''"
    by (simp add: digitChar_def)
  have m: "errToString (FsError ''mkdir /data'') = ''Error: mkdir /data''"
    by (simp add: errToString_def errName_def errMessage_def)
  have h1: "noFaults sampleEnv"
    by (simp add: noFaults_def sampleEnv_def)
  have h2: "\<forall>n. remote sampleEnv n = Inr [r1, r2, r3]"
    by (simp add: sampleEnv_def)
  have h3: "\<forall>d \<in> set [r1, r2, r3]. timeOf sampleEnv d \<noteq> None"
    by (simp add: timeOf_def sample_defs)
  have h4: "\<forall>st \<in> set (stations sampleConfig). ascending sampleEnv (matching st [r1, r2, r3])"
    by (simp add: ascending_def notAfter_def timeOf_def matching_def sample_defs)
  have h5: "\<forall>st \<in> set (stations sampleConfig). wellFormed sampleEnv sampleConfig emptyWorld st"
    by (simp add: wellFormed_def emptyWorld_def)
  have b: "length (filter (\<lambda>st. matching st [r1, r2, r3] \<noteq> []) (stations sampleConfig)) = 1"
    by (simp add: matching_def sample_defs)
  from C9_prints_number_of_batches
         [where cfg = sampleConfig and e = sampleEnv and w = emptyWorld
            and res = "[[r1, r2, r3]]" and payload = "[r1, r2, r3]"]
       C9_prints_number_of_batches
         [where cfg = sampleConfig and e = readOnlyEnv and w = emptyWorld
            and er = "FsError ''mkdir /data''"]
       c ok ko h1 h2 h3 h4 h5
  show ?thesis by (simp add: n m b list_all_iff digitChar_def)
qed

text \<open>
  The claim as written fails: the first cycle writes three records and the wrapper prints
  the count 1; run again on the result, the wrapper writes nothing and prints 1 again.
\<close>

theorem C9_counterexample:
  "snd (example_cemaden sampleConfig sampleEnv emptyWorld) = 0
   \<and> last (console (fst (example_cemaden sampleConfig sampleEnv emptyWorld)))
       = ''Done. Saved 1 DCPs in /data''
   \<and> fileContent (fst (example_cemaden sampleConfig sampleEnv emptyWorld)) ''/data/S1''
         ''S1_20190722_102000.dat''
       = Some (''TIMESTAMP;chuva'' @ CRLF @ ''07/22/2019 10:00:00;0.0'' @ CRLF
                @ ''07/22/2019 10:10:00;0.2'' @ CRLF @ ''07/22/2019 10:20:00;0.4'' @ CRLF)
   \<and> snd (example_cemaden sampleConfig sampleEnv
            (fst (example_cemaden sampleConfig sampleEnv emptyWorld))) = 0
   \<and> last (console (fst (example_cemaden sampleConfig sampleEnv
            (fst (example_cemaden sampleConfig sampleEnv emptyWorld)))))
       = ''Done. Saved 1 DCPs in /data''
   \<and> disk (fst (example_cemaden sampleConfig sampleEnv
            (fst (example_cemaden sampleConfig sampleEnv emptyWorld)))) ''/data/S1''
       = disk (fst (example_cemaden sampleConfig sampleEnv emptyWorld)) ''/data/S1''"
  by (simp add: example_cemaden_def newCemaden_def digitChar_def model_defs sample_defs)

section \<open>Header and lines\<close>

lemma splitSemi_plain: "CHR '';'' \<notin> set s \<Longrightarrow> splitSemi s = [s]"
  by (induction s) auto

lemma splitSemi_field: "CHR '';'' \<notin> set s \<Longrightarrow> splitSemi (s @ CHR '';'' # t) = s # splitSemi t"
  by (induction s) auto

lemma dropCRLF_terminated: "dropCRLF (s @ CRLF) = s"
  by (simp add: dropCRLF_def CRLF_def)

lemma dropCRLF_semicolon: "dropCRLF (s @ '';'') = s @ '';''"
proof -
  have "last (drop (length (s @ '';'') - 2) (s @ '';'')) = CHR '';''"
    by (cases s rule: rev_cases) auto
  then have "drop (length (s @ '';'') - 2) (s @ '';'') \<noteq> CRLF"
    by (auto simp: CRLF_def)
  then show ?thesis by (simp add: dropCRLF_def)
qed

lemma joinCells_body:
  assumes "cells \<noteq> []" "\<forall>c \<in> set cells. CHR '';'' \<notin> set c"
  shows "\<exists>body. joinCells cells = body @ CRLF \<and> splitSemi body = cells"
  using assms
proof (induction cells rule: joinCells.induct)
  case 1
  then show ?case by simp
next
  case (2 c)
  then show ?case by (simp add: splitSemi_plain)
next
  case (3 c c' cs)
  then obtain body where b: "joinCells (c' # cs) = body @ CRLF" "splitSemi body = c' # cs"
    by auto
  have "joinCells (c # c' # cs) = (c @ CHR '';'' # body) @ CRLF"
    using b(1) by simp
  moreover have "splitSemi (c @ CHR '';'' # body) = c # c' # cs"
    using 3 b(2) by (simp add: splitSemi_field)
  ultimately show ?case by blast
qed

lemma cellsOf_row:
  assumes "CHR '';'' \<notin> set first" "\<forall>c \<in> set cells. CHR '';'' \<notin> set c"
  shows "cellsOf (first @ '';'' @ joinCells cells) = first # (if cells = [] then [[]] else cells)"
proof (cases "cells = []")
  case True
  then show ?thesis
    using assms(1) dropCRLF_semicolon [of first]
    by (simp add: cellsOf_def splitSemi_field)
next
  case False
  from joinCells_body [OF False assms(2)] obtain body where
    b: "joinCells cells = body @ CRLF" "splitSemi body = cells" by blast
  have "first @ '';'' @ joinCells cells = (first @ CHR '';'' # body) @ CRLF"
    using b(1) by simp
  then have "dropCRLF (first @ '';'' @ joinCells cells) = first @ CHR '';'' # body"
    by (simp only: dropCRLF_terminated)
  with False assms(1) b(2) show ?thesis
    by (simp add: cellsOf_def splitSemi_field)
qed

lemma openFile_content:
  assumes "disk w dir = Some ls" "\<not> failWrite e dir name"
  shows "fileContent (fst (openFile e dir name header w)) dir name = Some (opened header name ls)"
  by (simp add: openFile_ok [OF assms] fileContent_def AList.update_conv')

text \<open>
  Claim C7, amended. \<open>openFile\<close> writes the header exactly when the file is new or empty
  and leaves a file with content as it is; the header is never empty, so it is written
  once. Every data line is built from the keys of its own reading. When the reading has
  the same non-excluded keys as the reading the header was built from, and no key, value
  or formatted timestamp contains \<open>;\<close>, the line has as many delimited values as the
  header has field names, each under its field name.
\<close>

theorem C7_header_once_lines_by_own_keys:
  "(disk w dir = Some ls \<and> \<not> failWrite e dir name \<longrightarrow>
      fileContent (fst (openFile e dir name header w)) dir name = Some (opened header name ls))
   \<and> buildHeader st keys \<noteq> []
   \<and> (CHR '';'' \<notin> set (formatLine e (dataHora d))
        \<and> (\<forall>k \<in> set (buildKeys d ex). CHR '';'' \<notin> set k \<and> CHR '';'' \<notin> set (cell d k))
        \<and> buildKeys d ex = buildKeys d0 ex \<longrightarrow>
      cellsOf (buildHeader st (buildKeys d0 ex))
        = ''TIMESTAMP'' # (if buildKeys d0 ex = [] then [[]] else rev (buildKeys d0 ex))
      \<and> cellsOf (buildLine e d (buildKeys d ex))
        = formatLine e (dataHora d)
            # (if buildKeys d ex = [] then [[]] else map (cell d) (rev (buildKeys d ex)))
      \<and> length (cellsOf (buildLine e d (buildKeys d ex)))
        = length (cellsOf (buildHeader st (buildKeys d0 ex))))"
proof (intro conjI impI)
  assume "disk w dir = Some ls \<and> \<not> failWrite e dir name"
  then show "fileContent (fst (openFile e dir name header w)) dir name = Some (opened header name ls)"
    by (simp add: openFile_content)
next
  show "buildHeader st keys \<noteq> []" by (simp add: buildHeader_def)
next
  assume a: "CHR '';'' \<notin> set (formatLine e (dataHora d))
        \<and> (\<forall>k \<in> set (buildKeys d ex). CHR '';'' \<notin> set k \<and> CHR '';'' \<notin> set (cell d k))
        \<and> buildKeys d ex = buildKeys d0 ex"
  let ?keys = "buildKeys d ex"
  have h: "cellsOf (buildHeader st ?keys) = ''TIMESTAMP'' # (if ?keys = [] then [[]] else rev ?keys)"
    using a cellsOf_row [of "''TIMESTAMP''" "rev ?keys"] by (simp add: buildHeader_def)
  have l: "cellsOf (buildLine e d ?keys)
        = formatLine e (dataHora d) # (if ?keys = [] then [[]] else map (cell d) (rev ?keys))"
    using a cellsOf_row [of "formatLine e (dataHora d)" "map (cell d) (rev ?keys)"]
    by (simp add: buildLine_def)
  from h a show "cellsOf (buildHeader st (buildKeys d0 ex))
        = ''TIMESTAMP'' # (if buildKeys d0 ex = [] then [[]] else rev (buildKeys d0 ex))"
    by simp
  from l show "cellsOf (buildLine e d (buildKeys d ex))
        = formatLine e (dataHora d)
            # (if buildKeys d ex = [] then [[]] else map (cell d) (rev (buildKeys d ex)))" .
  from h l a show "length (cellsOf (buildLine e d (buildKeys d ex)))
        = length (cellsOf (buildHeader st (buildKeys d0 ex)))"
    by simp
qed

theorem C7_header_once_lines_by_own_keys_witness:
  "disk savedWorld ''/data/S1''
     = Some [(''lastDate.dat'', ''2019-07-22 10:10:00.0''),
             (''S1_20190722_101000.dat'',
              ''TIMESTAMP;chuva'' @ CRLF @ ''07/22/2019 10:00:00;0.0'' @ CRLF
                @ ''07/22/2019 10:10:00;0.2'' @ CRLF)]
   \<and> \<not> failWrite sampleEnv ''/data/S1'' ''S1_20190722_102000.dat''
   \<and> fileContent (fst (openFile sampleEnv ''/data/S1'' ''S1_20190722_102000.dat''
                          (''TIMESTAMP;chuva'' @ CRLF) savedWorld))
         ''/data/S1'' ''S1_20190722_102000.dat'' = Some (''TIMESTAMP;chuva'' @ CRLF)
   \<and> \<not> failWrite sampleEnv ''/data/S1'' ''S1_20190722_101000.dat''
   \<and> fileContent (fst (openFile sampleEnv ''/data/S1'' ''S1_20190722_101000.dat''
                          (''TIMESTAMP;chuva'' @ CRLF) savedWorld))
         ''/data/S1'' ''S1_20190722_101000.dat''
       = Some (''TIMESTAMP;chuva'' @ CRLF @ ''07/22/2019 10:00:00;0.0'' @ CRLF
                @ ''07/22/2019 10:10:00;0.2'' @ CRLF)
   \<and> CHR '';'' \<notin> set (formatLine sampleEnv (dataHora r2))
   \<and> list_all (\<lambda>k. CHR '';'' \<notin> set k \<and> CHR '';'' \<notin> set (cell r2 k))
         (buildKeys r2 (exclude sampleConfig))
   \<and> buildKeys r2 (exclude sampleConfig) = buildKeys r1 (exclude sampleConfig)
   \<and> cellsOf (buildHeader stS1 (buildKeys r1 (exclude sampleConfig))) = [''TIMESTAMP'', ''chuva'']
   \<and> cellsOf (buildLine sampleEnv r2 (buildKeys r2 (exclude sampleConfig)))
       = [''07/22/2019 10:10:00'', ''0.2'']"
proof -
  let ?ls = "[(''lastDate.dat'', ''2019-07-22 10:10:00.0''),
             (''S1_20190722_101000.dat'',
              ''TIMESTAMP;chuva'' @ CRLF @ ''07/22/2019 10:00:00;0.0'' @ CRLF
                @ ''07/22/2019 10:10:00;0.2'' @ CRLF)]"
  have d: "disk savedWorld ''/data/S1'' = Some ?ls"
    by (simp add: savedWorld_def)
  have f: "\<not> failWrite sampleEnv ''/data/S1'' ''S1_20190722_102000.dat''"
    "\<not> failWrite sampleEnv ''/data/S1'' ''S1_20190722_101000.dat''"
    by (simp_all add: sampleEnv_def)
  have k: "buildKeys r2 (exclude sampleConfig) = [''chuva'']"
    "buildKeys r1 (exclude sampleConfig) = [''chuva'']"
    by (simp_all add: buildKeys_def sample_defs)
  have t: "formatLine sampleEnv (dataHora r2) = ''07/22/2019 10:10:00''"
    by (simp add: sample_defs)
  have c: "cell r2 ''chuva'' = ''0.2''"
    by (simp add: cell_def sample_defs)
  from C7_header_once_lines_by_own_keys
         [where w = savedWorld and dir = "''/data/S1''" and ls = ?ls and e = sampleEnv
            and name = "''S1_20190722_102000.dat''" and header = "''TIMESTAMP;chuva'' @ CRLF"
            and d = r2 and ex = "exclude sampleConfig" and ?d0.0 = r1 and st = stS1]
       C7_header_once_lines_by_own_keys
         [where w = savedWorld and dir = "''/data/S1''" and ls = ?ls and e = sampleEnv
            and name = "''S1_20190722_101000.dat''" and header = "''TIMESTAMP;chuva'' @ CRLF"]
       d f
  show ?thesis by (simp add: opened_def CRLF_def k t c)
qed

text \<open>
  The claim as written fails: the payload holds a reading with the key \<open>chuva\<close> and a later
  one with the keys \<open>chuva\<close> and \<open>nivel\<close>. The header is built from the first one and
  has two field names; the line of the second one has three values.
\<close>

theorem C7_counterexample:
  "fileContent (fst (getData sampleConfig mixedEnv emptyWorld)) ''/data/S1'' ''S1_20190722_101000.dat''
     = Some (''TIMESTAMP;chuva'' @ CRLF @ ''07/22/2019 10:00:00;0.0'' @ CRLF
              @ ''07/22/2019 10:10:00;1.5;0.2'' @ CRLF)
   \<and> buildHeader stS1 (buildKeys r1 (exclude sampleConfig)) = ''TIMESTAMP;chuva'' @ CRLF
   \<and> buildLine mixedEnv r2n (buildKeys r2n (exclude sampleConfig))
       = ''07/22/2019 10:10:00;1.5;0.2'' @ CRLF
   \<and> cellsOf (''TIMESTAMP;chuva'' @ CRLF) = [''TIMESTAMP'', ''chuva'']
   \<and> cellsOf (''07/22/2019 10:10:00;1.5;0.2'' @ CRLF) = [''07/22/2019 10:10:00'', ''1.5'', ''0.2'']"
proof -
  have c1: "cellsOf (''TIMESTAMP;chuva'' @ CRLF) = [''TIMESTAMP'', ''chuva'']"
    by (simp add: cellsOf_def dropCRLF_terminated del: append_Cons)
  have c2: "cellsOf (''07/22/2019 10:10:00;1.5;0.2'' @ CRLF) = [''07/22/2019 10:10:00'', ''1.5'', ''0.2'']"
    by (simp add: cellsOf_def dropCRLF_terminated del: append_Cons)
  have f: "fileContent (fst (getData sampleConfig mixedEnv emptyWorld)) ''/data/S1'' ''S1_20190722_101000.dat''
     = Some (''TIMESTAMP;chuva'' @ CRLF @ ''07/22/2019 10:00:00;0.0'' @ CRLF
              @ ''07/22/2019 10:10:00;1.5;0.2'' @ CRLF)"
    by (simp add: mixedEnv_def r2n_def model_defs sample_defs)
  have h: "buildHeader stS1 (buildKeys r1 (exclude sampleConfig)) = ''TIMESTAMP;chuva'' @ CRLF"
    by (simp add: buildHeader_def buildKeys_def sample_defs)
  have l: "buildLine mixedEnv r2n (buildKeys r2n (exclude sampleConfig))
       = ''07/22/2019 10:10:00;1.5;0.2'' @ CRLF"
    by (simp add: buildLine_def buildKeys_def cell_def mixedEnv_def r2n_def sample_defs)
  from f h l c1 c2 show ?thesis by (intro conjI)
qed

end
